theory Spec2Isabelle
  imports Complex_Main
begin

section \<open>Single-precision arithmetic as the driver uses it\<close>

text \<open>
  The driver (\<^verbatim>\<open>drivers/motor/motor.cpp\<close>) keeps the motor speed and the PWM frequency
  in C++ \<^verbatim>\<open>float\<close> variables. A \<^verbatim>\<open>float\<close> is modelled by the real number it
  stands for, or by one of the three special values. The two zeros are not told apart:
  the driver never divides by a zero and never inspects the sign of a zero.
\<close>

datatype f32 = Fin real | PInf | NInf | NaN

text \<open>
  Conversions that C++ leaves undefined (a \<^verbatim>\<open>float\<close> that is not a number, or whose
  integer part does not fit the target type, converted to an integer; overflow of
  signed arithmetic) are a result of their own.
\<close>

datatype fault = Undefined_behaviour

text \<open>
  Rounding to nearest, ties to even. The magnitude is measured in units of the smallest
  subnormal, \<open>2 ^ 149\<close> of them making 1. In binade \<open>k\<close> the representable values are
  the multiples of \<open>2 ^ k\<close> units below \<open>2 ^ (k + 24)\<close> units; binade 0 holds the
  subnormals and the smallest normal numbers, binade 253 the largest finite ones.
\<close>

function f32_binade :: "nat \<Rightarrow> real \<Rightarrow> nat" where
  "f32_binade k b = (if 253 \<le> k \<or> b < 2 ^ (k + 24) then k else f32_binade (k + 1) b)"
  by pat_completeness auto
termination
  by (relation "measure (\<lambda>(k, b). 253 - k)") auto

declare f32_binade.simps [simp del]

definition round_half_even :: "real \<Rightarrow> int" where
  "round_half_even y =
     (if y - real_of_int \<lfloor>y\<rfloor> < 1 / 2 then \<lfloor>y\<rfloor>
      else if 1 / 2 < y - real_of_int \<lfloor>y\<rfloor> then \<lfloor>y\<rfloor> + 1
      else if even \<lfloor>y\<rfloor> then \<lfloor>y\<rfloor> else \<lfloor>y\<rfloor> + 1)"

definition f32_round :: "real \<Rightarrow> f32" where
  "f32_round x =
     (let b = \<bar>x\<bar> * 2 ^ 149;
          k = f32_binade 0 b;
          r = real_of_int (round_half_even (b / 2 ^ k)) * 2 ^ k / 2 ^ 149
      in if 2 ^ 128 \<le> r then (if 0 \<le> x then PInf else NInf)
         else Fin (if 0 \<le> x then r else - r))"

text \<open>\<^verbatim>\<open>(float)n\<close> for an unsigned integer \<open>n\<close>.\<close>

definition f32_of_nat :: "nat \<Rightarrow> f32" where
  "f32_of_nat n = f32_round (real n)"

fun f32_negative :: "f32 \<Rightarrow> bool" where
  "f32_negative (Fin a) = (a < 0)"
| "f32_negative NInf = True"
| "f32_negative PInf = False"
| "f32_negative NaN = False"

text \<open>\<^verbatim>\<open>x * y\<close> on \<^verbatim>\<open>float\<close>.\<close>

definition f32_mul :: "f32 \<Rightarrow> f32 \<Rightarrow> f32" where
  "f32_mul x y =
     (case (x, y) of
        (Fin a, Fin b) \<Rightarrow> f32_round (a * b)
      | _ \<Rightarrow> if x = NaN \<or> y = NaN \<or> x = Fin 0 \<or> y = Fin 0 then NaN
             else if f32_negative x = f32_negative y then PInf else NInf)"

text \<open>
  \<^verbatim>\<open>x / y\<close> on \<^verbatim>\<open>float\<close>. A zero divisor is taken as the positive zero; the driver
  divides only by a frequency it has checked to be at least 1.
\<close>

definition f32_div :: "f32 \<Rightarrow> f32 \<Rightarrow> f32" where
  "f32_div x y =
     (case (x, y) of
        (Fin a, Fin b) \<Rightarrow>
          if b = 0 then (if a = 0 then NaN else if a < 0 then NInf else PInf)
          else f32_round (a / b)
      | (Fin a, PInf) \<Rightarrow> Fin 0
      | (Fin a, NInf) \<Rightarrow> Fin 0
      | (PInf, Fin b) \<Rightarrow> if b < 0 then NInf else PInf
      | (NInf, Fin b) \<Rightarrow> if b < 0 then PInf else NInf
      | _ \<Rightarrow> NaN)"

text \<open>\<^verbatim>\<open>x <= y\<close> and \<^verbatim>\<open>x >= y\<close> on \<^verbatim>\<open>float\<close>: false as soon as one side is not a number.\<close>

fun f32_le :: "f32 \<Rightarrow> f32 \<Rightarrow> bool" where
  "f32_le NaN y = False"
| "f32_le x NaN = False"
| "f32_le NInf y = True"
| "f32_le x PInf = True"
| "f32_le (Fin a) (Fin b) = (a \<le> b)"
| "f32_le (Fin a) NInf = False"
| "f32_le PInf y = False"

definition f32_ge :: "f32 \<Rightarrow> f32 \<Rightarrow> bool" where
  "f32_ge x y = f32_le y x"

text \<open>Conversion to an integer drops the fraction (rounds towards zero).\<close>

definition truncate_real :: "real \<Rightarrow> int" where
  "truncate_real r = (if 0 \<le> r then \<lfloor>r\<rfloor> else \<lceil>r\<rceil>)"

text \<open>\<^verbatim>\<open>(int32_t)x\<close> and \<^verbatim>\<open>(uint32_t)x\<close> for a \<^verbatim>\<open>float\<close> \<open>x\<close>.\<close>

fun f32_to_int32 :: "f32 \<Rightarrow> fault + int" where
  "f32_to_int32 (Fin r) =
     (if - (2 ^ 31) \<le> truncate_real r \<and> truncate_real r < 2 ^ 31 then Inr (truncate_real r)
      else Inl Undefined_behaviour)"
| "f32_to_int32 x = Inl Undefined_behaviour"

fun f32_to_uint32 :: "f32 \<Rightarrow> fault + nat" where
  "f32_to_uint32 (Fin r) =
     (if 0 \<le> truncate_real r \<and> truncate_real r < 2 ^ 32 then Inr (nat (truncate_real r))
      else Inl Undefined_behaviour)"
| "f32_to_uint32 x = Inl Undefined_behaviour"

text \<open>An \<^verbatim>\<open>int\<close> passed where a \<^verbatim>\<open>uint16_t\<close> or a \<^verbatim>\<open>uint8_t\<close> is expected.\<close>

definition to_uint16 :: "int \<Rightarrow> nat" where
  "to_uint16 i = nat (i mod 2 ^ 16)"

definition to_uint8 :: "int \<Rightarrow> nat" where
  "to_uint8 i = nat (i mod 2 ^ 8)"

section \<open>The peripheral\<close>

text \<open>
  The PWM and GPIO functions of the SDK are outside the driver. The hardware is
  represented by the sequence of calls the driver has made to them, oldest first: a
  register changes only by such a call.
\<close>

datatype gpio_function = GPIO_FUNC_PWM | GPIO_FUNC_NULL

record pwm_config =
  cfg_wrap :: nat
  cfg_clkdiv :: f32

datatype hw_call =
    Pwm_init nat pwm_config bool
  | Gpio_set_function nat gpio_function
  | Pwm_set_clkdiv_int_frac nat nat nat
  | Pwm_set_wrap nat nat
  | Pwm_set_gpio_level nat nat

text \<open>The SDK's \<^verbatim>\<open>pwm_gpio_to_slice_num\<close>: two neighbouring pins share one of 8 slices.\<close>

definition pwm_gpio_to_slice_num :: "nat \<Rightarrow> nat" where
  "pwm_gpio_to_slice_num gpio = drop_bit 1 gpio mod 8"

text \<open>The SDK's \<^verbatim>\<open>pwm_get_default_config\<close>: full wrap, divider 1.\<close>

definition pwm_get_default_config :: pwm_config where
  "pwm_get_default_config = \<lparr>cfg_wrap = 65535, cfg_clkdiv = Fin 1\<rparr>"

section \<open>The motor\<close>

text \<open>
  Modelled from the spec: the enumeration \<^verbatim>\<open>DecayMode\<close> is declared in
  \<^verbatim>\<open>motor.hpp\<close>, which is not among the sources. It has the two enumerators
  \<^verbatim>\<open>SLOW_DECAY\<close> and \<^verbatim>\<open>FAST_DECAY\<close>. A C++ enumeration object can hold a
  value that is neither (the \<^verbatim>\<open>switch\<close> of \<^verbatim>\<open>update_pwm\<close> has a
  \<^verbatim>\<open>default\<close> label for it); \<open>Other_decay n\<close> stands for such a value.
\<close>

datatype DecayMode = SLOW_DECAY | FAST_DECAY | Other_decay nat

text \<open>
  Modelled from the spec: the constant \<^verbatim>\<open>MAX_PWM_PERIOD\<close> is declared in
  \<^verbatim>\<open>motor.hpp\<close>; it is the width of the wrap register, 65535.
\<close>

definition MAX_PWM_PERIOD :: nat where
  "MAX_PWM_PERIOD = 65535"

record Motor =
  pin_pos :: nat
  pin_neg :: nat
  pwm_cfg :: pwm_config
  pwm_period :: nat
  pwm_frequency :: f32
  motor_decay_mode :: DecayMode
  motor_speed :: f32

text \<open>
  The constructor stores its four arguments. The members it does not mention keep what
  the declaration gives them: \<open>uninit\<close> is the object before construction, and the
  speed starts at 0 (modelled from the spec: the member initialisers are in
  \<^verbatim>\<open>motor.hpp\<close>).
\<close>

definition Motor_ctor :: "Motor \<Rightarrow> nat \<Rightarrow> nat \<Rightarrow> f32 \<Rightarrow> DecayMode \<Rightarrow> Motor" where
  "Motor_ctor uninit pos neg freq mode =
     uninit\<lparr>pin_pos := pos, pin_neg := neg, pwm_frequency := freq,
            motor_decay_mode := mode, motor_speed := Fin 0\<rparr>"

subsection \<open>\<^verbatim>\<open>Motor::calculate_pwm_factors\<close>\<close>

text \<open>
  One pass through the body of the \<^verbatim>\<open>while(true)\<close> loop on the pair
  \<open>(div16, period)\<close>; \<open>None\<close> is the \<^verbatim>\<open>break\<close>. \<open>div16\<close> is a
  \<^verbatim>\<open>uint32_t\<close>, \<open>period\<close> a \<^verbatim>\<open>uint16_t\<close>: the products \<open>period * p\<close> of the
  conditions are computed in \<^verbatim>\<open>int\<close>, the assignment \<^verbatim>\<open>period *= p\<close> wraps at
  16 bits.
\<close>

definition pwm_factor_step :: "nat \<times> nat \<Rightarrow> (nat \<times> nat) option" where
  "pwm_factor_step s =
     (case s of (div16, period) \<Rightarrow>
        if push_bit 4 5 \<le> div16 \<and> div16 mod 5 = 0 \<and> period * 5 < MAX_PWM_PERIOD
          then Some (div16 div 5, (period * 5) mod 2 ^ 16)
        else if push_bit 4 3 \<le> div16 \<and> div16 mod 3 = 0 \<and> period * 3 < MAX_PWM_PERIOD
          then Some (div16 div 3, (period * 3) mod 2 ^ 16)
        else if push_bit 4 2 \<le> div16 \<and> period * 2 \<le> MAX_PWM_PERIOD
          then Some (div16 div 2, (period * 2) mod 2 ^ 16)
        else None)"

function pwm_factor_loop :: "nat \<times> nat \<Rightarrow> nat \<times> nat" where
  "pwm_factor_loop s =
     (case pwm_factor_step s of None \<Rightarrow> s | Some s' \<Rightarrow> pwm_factor_loop s')"
  by pat_completeness auto
termination
  by (relation "measure fst")
    (auto simp: pwm_factor_step_def push_bit_eq_mult split: if_splits prod.splits)

declare pwm_factor_loop.simps [simp del]

text \<open>
  The same loop with a bound on the number of passes: \<open>None\<close> when the bound is
  used up before the \<^verbatim>\<open>break\<close>.
\<close>

fun pwm_factor_run :: "nat \<Rightarrow> nat \<times> nat \<Rightarrow> (nat \<times> nat) option" where
  "pwm_factor_run 0 s = None"
| "pwm_factor_run (Suc n) s =
     (case pwm_factor_step s of None \<Rightarrow> Some s | Some s' \<Rightarrow> pwm_factor_run n s')"

text \<open>The states the loop passes through when it is entered with \<open>div16 = d0\<close>.\<close>

inductive loop_state :: "nat \<Rightarrow> nat \<times> nat \<Rightarrow> bool" for d0 :: nat where
  loop_entry: "loop_state d0 (d0, 1)"
| loop_pass: "loop_state d0 s \<Longrightarrow> pwm_factor_step s = Some s' \<Longrightarrow> loop_state d0 s'"

text \<open>
  The conditions the specification puts on applying the prime \<open>q\<close> in a pass:
  \<open>div16 \<ge> q * 16\<close>, no remainder of \<open>div16\<close> by \<open>q\<close> (not asked for
  \<open>q = 2\<close>), and \<open>period * q\<close> not above the maximum period. This definition follows
  the specification, not the source.
\<close>

definition spec_prime_applicable :: "nat \<Rightarrow> nat \<times> nat \<Rightarrow> bool" where
  "spec_prime_applicable q s =
     (case s of (div16, period) \<Rightarrow>
        q * 16 \<le> div16 \<and> (q = 2 \<or> div16 mod q = 0) \<and> period * q \<le> MAX_PWM_PERIOD)"

text \<open>
  The frequency check, and the divider the loop is entered with:
  \<^verbatim>\<open>(uint32_t)((float)(source_hz << 4) / freq)\<close>, the shift wrapping at 32 bits.
  \<open>source_hz\<close> is what \<^verbatim>\<open>clock_get_hz(clk_sys)\<close> returns.
\<close>

definition freq_valid :: "nat \<Rightarrow> f32 \<Rightarrow> bool" where
  "freq_valid source_hz freq \<longleftrightarrow>
     f32_ge freq (Fin 1) \<and> f32_le freq (f32_of_nat (drop_bit 1 source_hz))"

definition initial_div16 :: "nat \<Rightarrow> f32 \<Rightarrow> fault + nat" where
  "initial_div16 source_hz freq =
     f32_to_uint32 (f32_div (f32_of_nat (push_bit 4 source_hz mod 2 ^ 32)) freq)"

text \<open>
  \<open>Inr (Some (period_out, div16_out))\<close> is the return value \<^verbatim>\<open>true\<close> with the two
  output parameters, \<open>Inr None\<close> the return value \<^verbatim>\<open>false\<close>, which leaves the
  output parameters alone.
\<close>

definition calculate_pwm_factors :: "nat \<Rightarrow> f32 \<Rightarrow> fault + (nat \<times> nat) option" where
  "calculate_pwm_factors source_hz freq =
     (if freq_valid source_hz freq then
        (case initial_div16 source_hz freq of
           Inl e \<Rightarrow> Inl e
         | Inr d0 \<Rightarrow>
             (case pwm_factor_loop (d0, 1) of (div16, period) \<Rightarrow>
                if 16 \<le> div16 \<and> div16 < push_bit 4 256
                  then Inr (Some (period, div16 mod 2 ^ 16))
                else Inr None))
      else Inr None)"

subsection \<open>\<^verbatim>\<open>Motor::update_pwm\<close>\<close>

text \<open>
  The two \<^verbatim>\<open>pwm_set_gpio_level\<close> calls of \<^verbatim>\<open>update_pwm\<close>, positive pin first.
  The levels are computed in \<^verbatim>\<open>int\<close> and passed as \<^verbatim>\<open>uint16_t\<close>;
  \<^verbatim>\<open>0 - signed_duty_cycle\<close> overflows for the least \<^verbatim>\<open>int32_t\<close>.
\<close>

definition signed_duty_cycle :: "Motor \<Rightarrow> fault + int" where
  "signed_duty_cycle m = f32_to_int32 (f32_mul (motor_speed m) (f32_of_nat (pwm_period m)))"

definition level_calls :: "Motor \<Rightarrow> fault + hw_call list" where
  "level_calls m =
     (case signed_duty_cycle m of
        Inl e \<Rightarrow> Inl e
      | Inr duty \<Rightarrow>
          (case motor_decay_mode m of
             SLOW_DECAY \<Rightarrow>
               if 0 \<le> duty then
                 Inr [Pwm_set_gpio_level (pin_pos m) (to_uint16 (int (pwm_period m))),
                      Pwm_set_gpio_level (pin_neg m) (to_uint16 (int (pwm_period m) - duty))]
               else
                 Inr [Pwm_set_gpio_level (pin_pos m) (to_uint16 (int (pwm_period m) + duty)),
                      Pwm_set_gpio_level (pin_neg m) (to_uint16 (int (pwm_period m)))]
           | _ \<Rightarrow>
               if 0 \<le> duty then
                 Inr [Pwm_set_gpio_level (pin_pos m) (to_uint16 duty),
                      Pwm_set_gpio_level (pin_neg m) (to_uint16 0)]
               else if duty = - (2 ^ 31) then Inl Undefined_behaviour
               else
                 Inr [Pwm_set_gpio_level (pin_pos m) (to_uint16 0),
                      Pwm_set_gpio_level (pin_neg m) (to_uint16 (0 - duty))]))"

definition update_pwm :: "Motor \<Rightarrow> hw_call list \<Rightarrow> fault + hw_call list" where
  "update_pwm m hw = (case level_calls m of Inl e \<Rightarrow> Inl e | Inr calls \<Rightarrow> Inr (hw @ calls))"

subsection \<open>\<^verbatim>\<open>Motor::set_frequency\<close> and \<^verbatim>\<open>Motor::init\<close>\<close>

text \<open>
  Both return the \<^verbatim>\<open>bool\<close> of the source together with the motor and the hardware
  after the call.
\<close>

definition clkdiv_calls :: "Motor \<Rightarrow> nat \<Rightarrow> hw_call list" where
  "clkdiv_calls m div16 =
     (let pos_num = pwm_gpio_to_slice_num (pin_pos m);
          neg_num = pwm_gpio_to_slice_num (pin_neg m);
          div' = to_uint8 (int (drop_bit 4 div16));
          mod' = to_uint8 (int (div16 mod 16))
      in Pwm_set_clkdiv_int_frac pos_num div' mod' #
         (if neg_num \<noteq> pos_num then [Pwm_set_clkdiv_int_frac neg_num div' mod'] else []))"

definition wrap_calls :: "Motor \<Rightarrow> hw_call list" where
  "wrap_calls m =
     (let pos_num = pwm_gpio_to_slice_num (pin_pos m);
          neg_num = pwm_gpio_to_slice_num (pin_neg m)
      in Pwm_set_wrap pos_num (to_uint16 (int (pwm_period m) - 1)) #
         (if neg_num \<noteq> pos_num then [Pwm_set_wrap neg_num (to_uint16 (int (pwm_period m) - 1))]
          else []))"

definition set_frequency ::
  "nat \<Rightarrow> f32 \<Rightarrow> Motor \<times> hw_call list \<Rightarrow> fault + (bool \<times> Motor \<times> hw_call list)" where
  "set_frequency source_hz freq st =
     (case st of (m, hw) \<Rightarrow>
        (case calculate_pwm_factors source_hz freq of
           Inl e \<Rightarrow> Inl e
         | Inr None \<Rightarrow> Inr (False, m, hw)
         | Inr (Some (period, div16)) \<Rightarrow>
             (let pre_update_pwm = (pwm_period m < period);
                  m1 = m\<lparr>pwm_period := period, pwm_frequency := freq\<rparr>;
                  hw1 = hw @ clkdiv_calls m1 div16
              in case (if pre_update_pwm then update_pwm m1 hw1 else Inr hw1) of
                   Inl e \<Rightarrow> Inl e
                 | Inr hw2 \<Rightarrow>
                     (case (if \<not> pre_update_pwm then update_pwm m1 (hw2 @ wrap_calls m1)
                            else Inr (hw2 @ wrap_calls m1)) of
                        Inl e \<Rightarrow> Inl e
                      | Inr hw3 \<Rightarrow> Inr (True, m1, hw3)))))"

definition init :: "nat \<Rightarrow> Motor \<times> hw_call list \<Rightarrow> fault + (bool \<times> Motor \<times> hw_call list)" where
  "init source_hz st =
     (case st of (m, hw) \<Rightarrow>
        (case calculate_pwm_factors source_hz (pwm_frequency m) of
           Inl e \<Rightarrow> Inl e
         | Inr None \<Rightarrow> Inr (False, m, hw)
         | Inr (Some (period, div16)) \<Rightarrow>
             (let cfg = pwm_get_default_config
                          \<lparr>cfg_wrap := to_uint16 (int period - 1),
                           cfg_clkdiv := f32_div (f32_of_nat div16) (Fin 16)\<rparr>;
                  m1 = m\<lparr>pwm_period := period, pwm_cfg := cfg\<rparr>;
                  hw1 = hw @ [Pwm_init (pwm_gpio_to_slice_num (pin_pos m1)) cfg True,
                              Gpio_set_function (pin_pos m1) GPIO_FUNC_PWM,
                              Pwm_init (pwm_gpio_to_slice_num (pin_neg m1)) cfg True,
                              Gpio_set_function (pin_neg m1) GPIO_FUNC_PWM]
              in case update_pwm m1 hw1 of
                   Inl e \<Rightarrow> Inl e
                 | Inr hw2 \<Rightarrow> Inr (True, m1, hw2))))"

section \<open>Facts about the arithmetic\<close>

lemma f32_binade_le: "j \<le> K \<Longrightarrow> b < 2 ^ (K + 24) \<Longrightarrow> f32_binade j b \<le> K"
proof (induction j b rule: f32_binade.induct)
  case (1 k b)
  show ?case
  proof (cases "253 \<le> k \<or> b < 2 ^ (k + 24)")
    case True
    then show ?thesis using "1.prems" by (simp add: f32_binade.simps)
  next
    case False
    then have "k \<noteq> K" using "1.prems" by auto
    then have "k + 1 \<le> K" using "1.prems" by simp
    then have "f32_binade (k + 1) b \<le> K" using False "1.IH" "1.prems" by blast
    then show ?thesis using False by (subst f32_binade.simps) simp
  qed
qed

lemma f32_binade_eq:
  "j \<le> k \<Longrightarrow> k \<le> 253 \<Longrightarrow> b < 2 ^ (k + 24) \<Longrightarrow> k = j \<or> 2 ^ (k + 23) \<le> b
     \<Longrightarrow> f32_binade j b = k"
proof (induction j b rule: f32_binade.induct)
  case (1 j b)
  show ?case
  proof (cases "j = k")
    case True
    then show ?thesis using "1.prems" by (simp add: f32_binade.simps)
  next
    case False
    then have lt: "j < k" and big: "(2::real) ^ (k + 23) \<le> b" using "1.prems" by auto
    have "(2::real) ^ (j + 24) \<le> 2 ^ (k + 23)"
      using lt by (intro power_increasing) auto
    then have "\<not> b < 2 ^ (j + 24)" using big by linarith
    then have stay: "\<not> (253 \<le> j \<or> b < 2 ^ (j + 24))"
      using lt "1.prems" by auto
    then have "f32_binade (j + 1) b = k"
      using "1.IH" "1.prems" lt by auto
    then show ?thesis using stay by (subst f32_binade.simps) simp
  qed
qed

lemma round_half_even_le: "y \<le> real_of_int z \<Longrightarrow> round_half_even y \<le> z"
  unfolding round_half_even_def by (auto simp: floor_le_iff)

lemma round_half_even_ge: "real_of_int z \<le> y \<Longrightarrow> z \<le> round_half_even y"
proof -
  assume "real_of_int z \<le> y"
  then have "z \<le> \<lfloor>y\<rfloor>" by (simp add: le_floor_iff)
  then show ?thesis unfolding round_half_even_def by auto
qed

lemma f32_round_binade:
  assumes "k \<le> 253" and "\<bar>x\<bar> * 2 ^ 149 < 2 ^ (k + 24)"
    and "k = 0 \<or> 2 ^ (k + 23) \<le> \<bar>x\<bar> * 2 ^ 149"
  shows "f32_round x =
     (let r = real_of_int (round_half_even (\<bar>x\<bar> * 2 ^ 149 / 2 ^ k)) * 2 ^ k / 2 ^ 149
      in if 2 ^ 128 \<le> r then (if 0 \<le> x then PInf else NInf)
         else Fin (if 0 \<le> x then r else - r))"
proof -
  have "f32_binade 0 (\<bar>x\<bar> * 2 ^ 149) = k"
    using assms by (intro f32_binade_eq) auto
  then show ?thesis unfolding f32_round_def Let_def by (simp only:)
qed

lemma f32_round_between:
  assumes lo: "real lo \<le> x" and hi: "x \<le> real hi" and small: "hi < 2 ^ 24"
  shows "\<exists>r. f32_round x = Fin r \<and> real lo \<le> r \<and> r \<le> real hi"
proof -
  define b where "b = \<bar>x\<bar> * 2 ^ 149"
  define k where "k = f32_binade 0 b"
  define e where "e = 149 - k"
  define q where "q = round_half_even (b / 2 ^ k)"
  have x0: "0 \<le> x" using lo by (meson of_nat_0_le_iff order_trans)
  have "real hi < 2 ^ 24" using small by (metis of_nat_less_numeral_power_cancel_iff)
  then have "x < 2 ^ 24" using hi by linarith
  then have "b < 2 ^ 24 * 2 ^ 149" unfolding b_def using x0 by simp
  then have "b < 2 ^ (149 + 24)" by (simp add: power_add)
  then have k: "k \<le> 149" unfolding k_def by (intro f32_binade_le) auto
  then have "e + k = 149" unfolding e_def by simp
  then have "(2::real) ^ 149 = 2 ^ (e + k)" by (simp only:)
  then have pow: "(2::real) ^ 149 = 2 ^ e * 2 ^ k" by (simp only: power_add)
  have "b = x * (2 ^ e * 2 ^ k)" unfolding b_def using x0 by (simp only: pow abs_of_nonneg)
  then have y: "b / 2 ^ k = x * 2 ^ e" by simp
  have "x * 2 ^ e \<le> real hi * 2 ^ e" using hi by simp
  then have "b / 2 ^ k \<le> real_of_int (int hi * 2 ^ e)" using y by simp
  then have q_hi: "q \<le> int hi * 2 ^ e" unfolding q_def by (rule round_half_even_le)
  have "real lo * 2 ^ e \<le> x * 2 ^ e" using lo by simp
  then have "real_of_int (int lo * 2 ^ e) \<le> b / 2 ^ k" using y by simp
  then have q_lo: "int lo * 2 ^ e \<le> q" unfolding q_def by (rule round_half_even_ge)
  define r where "r = real_of_int q * 2 ^ k / 2 ^ 149"
  have r: "r = real_of_int q / 2 ^ e" unfolding r_def pow by simp
  have "real_of_int q \<le> real_of_int (int hi * 2 ^ e)" using q_hi by (simp only: of_int_le_iff)
  then have r_hi: "r \<le> real hi" unfolding r by (simp add: field_simps)
  have "real_of_int (int lo * 2 ^ e) \<le> real_of_int q" using q_lo by (simp only: of_int_le_iff)
  then have r_lo: "real lo \<le> r" unfolding r by (simp add: field_simps)
  have "0 \<le> r" using r_lo by (meson of_nat_0_le_iff order_trans)
  have "r < 2 ^ 24" using r_hi \<open>real hi < 2 ^ 24\<close> by linarith
  also have "(2::real) ^ 24 \<le> 2 ^ 128" by simp
  finally have "\<not> 2 ^ 128 \<le> r" by simp
  then have "f32_round x = Fin r"
    unfolding f32_round_def Let_def b_def [symmetric] k_def [symmetric]
      q_def [symmetric] r_def [symmetric]
    using x0 by simp
  then show ?thesis using r_lo r_hi by blast
qed

lemma round_half_even_0: "round_half_even 0 = 0"
  by (simp add: round_half_even_def)

lemma f32_round_uminus:
  "f32_round x = Fin r \<Longrightarrow> 0 \<le> x \<Longrightarrow> f32_round (- x) = Fin (- r)"
  by (cases "x = 0") (auto simp: f32_round_def Let_def round_half_even_0 split: if_splits)

lemma f32_of_nat_exact: "n < 2 ^ 24 \<Longrightarrow> f32_of_nat n = Fin (real n)"
  using f32_round_between [of n "real n" n] by (auto simp: f32_of_nat_def)

lemma truncate_nonneg: "0 \<le> r \<Longrightarrow> truncate_real r = \<lfloor>r\<rfloor>"
  by (simp add: truncate_real_def)

lemma truncate_uminus: "0 \<le> r \<Longrightarrow> truncate_real (- r) = - \<lfloor>r\<rfloor>"
  by (auto simp: truncate_real_def ceiling_def)

lemma f32_round_unit_nonneg:
  assumes "0 \<le> s" and "s \<le> 1" and "p < 2 ^ 24"
  shows "\<exists>r. f32_round (s * real p) = Fin r \<and> 0 \<le> r \<and> r \<le> real p
           \<and> (1 \<le> s * real p \<longrightarrow> 1 \<le> r) \<and> (s = 0 \<longrightarrow> r = 0)"
proof -
  have le: "s * real p \<le> real p" using assms by (simp add: mult_left_le_one_le)
  have "real 0 \<le> s * real p" using assms by simp
  from f32_round_between [OF this le assms(3)]
  obtain r where r: "f32_round (s * real p) = Fin r" "0 \<le> r" "r \<le> real p" by auto
  have "1 \<le> r" if "1 \<le> s * real p"
  proof -
    have "real 1 \<le> s * real p" using that by simp
    from f32_round_between [OF this le assms(3)] r(1) show ?thesis by auto
  qed
  moreover have "r = 0" if "s = 0"
  proof -
    have "real 0 \<le> s * real p" "s * real p \<le> real 0" using that by simp_all
    from f32_round_between [OF this] r(1) show ?thesis by auto
  qed
  ultimately show ?thesis using r by blast
qed

lemma f32_to_int32_Fin:
  "- (2 ^ 31) \<le> truncate_real r \<Longrightarrow> truncate_real r < 2 ^ 31
     \<Longrightarrow> f32_to_int32 (Fin r) = Inr (truncate_real r)"
  by simp

lemma f32_mul_speed_period:
  assumes "- 1 \<le> s" and "s \<le> 1" and "p < 2 ^ 16"
  shows "\<exists>duty. f32_to_int32 (f32_mul (Fin s) (f32_of_nat p)) = Inr duty
           \<and> - int p \<le> duty \<and> duty \<le> int p
           \<and> (0 \<le> s \<longrightarrow> 0 \<le> duty) \<and> (s \<le> 0 \<longrightarrow> duty \<le> 0)
           \<and> (1 \<le> \<bar>s\<bar> * real p \<longrightarrow> duty \<noteq> 0)"
proof -
  have p24: "p < 2 ^ 24" using assms(3) by (rule less_trans) simp
  have p31: "int p < 2 ^ 31"
  proof -
    have "int p < 2 ^ 16" using assms(3) by (metis of_nat_less_numeral_power_cancel_iff)
    then show ?thesis by simp
  qed
  have mul: "f32_mul (Fin s) (f32_of_nat p) = f32_round (s * real p)"
    by (simp add: f32_mul_def f32_of_nat_exact [OF p24])
  show ?thesis
  proof (cases "0 \<le> s")
    case True
    from f32_round_unit_nonneg [OF True assms(2) p24]
    obtain r where r: "f32_round (s * real p) = Fin r" "0 \<le> r" "r \<le> real p"
      "1 \<le> s * real p \<longrightarrow> 1 \<le> r" "s = 0 \<longrightarrow> r = 0" by auto
    have t: "truncate_real r = \<lfloor>r\<rfloor>" using r(2) by (rule truncate_nonneg)
    have f0: "0 \<le> \<lfloor>r\<rfloor>" using r(2) by simp
    have f1: "\<lfloor>r\<rfloor> \<le> int p" using r(3) by (simp add: floor_le_iff)
    have f2: "\<lfloor>r\<rfloor> \<noteq> 0" if "1 \<le> \<bar>s\<bar> * real p"
    proof -
      have "1 \<le> r" using that r(4) True by simp
      then have "1 \<le> \<lfloor>r\<rfloor>" by (simp add: le_floor_iff)
      then show ?thesis by linarith
    qed
    have f3: "\<lfloor>r\<rfloor> \<le> 0" if "s \<le> 0"
    proof -
      have "s = 0" using that True by simp
      then have "r = 0" using r(5) by simp
      then show ?thesis by simp
    qed
    have f4: "- int p \<le> \<lfloor>r\<rfloor>" using f0 by linarith
    have "- (2 ^ 31) \<le> truncate_real r" "truncate_real r < 2 ^ 31"
      unfolding t using f0 f1 p31 by linarith+
    then have "f32_to_int32 (Fin r) = Inr \<lfloor>r\<rfloor>"
      using f32_to_int32_Fin [of r] t by simp
    then have "f32_to_int32 (f32_mul (Fin s) (f32_of_nat p)) = Inr \<lfloor>r\<rfloor>"
      by (simp only: mul r(1))
    then show ?thesis using f0 f1 f2 f3 f4 by blast
  next
    case False
    then have neg: "0 \<le> - s" "- s \<le> 1" using assms(1) by auto
    from f32_round_unit_nonneg [OF neg p24]
    obtain r where r: "f32_round (- s * real p) = Fin r" "0 \<le> r" "r \<le> real p"
      "1 \<le> - s * real p \<longrightarrow> 1 \<le> r" by auto
    have "0 \<le> (- s) * real p" using neg(1) by (intro mult_nonneg_nonneg) simp_all
    from f32_round_uminus [OF r(1) this]
    have r': "f32_round (s * real p) = Fin (- r)" by simp
    have t: "truncate_real (- r) = - \<lfloor>r\<rfloor>" using r(2) by (rule truncate_uminus)
    have f0: "- \<lfloor>r\<rfloor> \<le> 0" using r(2) by simp
    have f1: "\<lfloor>r\<rfloor> \<le> int p" using r(3) by (simp add: floor_le_iff)
    have f2: "- \<lfloor>r\<rfloor> \<noteq> 0" if "1 \<le> \<bar>s\<bar> * real p"
    proof -
      have "1 \<le> r" using that r(4) False by simp
      then have "1 \<le> \<lfloor>r\<rfloor>" by (simp add: le_floor_iff)
      then show ?thesis by linarith
    qed
    have f3: "0 \<le> - \<lfloor>r\<rfloor>" if "0 \<le> s" using that False by simp
    have f4: "- int p \<le> - \<lfloor>r\<rfloor>" "- \<lfloor>r\<rfloor> \<le> int p" using f0 f1 by linarith+
    have "- (2 ^ 31) \<le> truncate_real (- r)" "truncate_real (- r) < 2 ^ 31"
      unfolding t using f0 f1 p31 by linarith+
    then have "f32_to_int32 (Fin (- r)) = Inr (- \<lfloor>r\<rfloor>)"
      using f32_to_int32_Fin [of "- r"] t by simp
    then have "f32_to_int32 (f32_mul (Fin s) (f32_of_nat p)) = Inr (- \<lfloor>r\<rfloor>)"
      by (simp only: mul r')
    then show ?thesis using f0 f2 f3 f4 by blast
  qed
qed

lemma to_uint16_id: "0 \<le> i \<Longrightarrow> i < 2 ^ 16 \<Longrightarrow> to_uint16 i = nat i"
  by (simp add: to_uint16_def)

section \<open>Facts about the level update\<close>

lemma f32_to_int32_InrD:
  "f32_to_int32 x = Inr d \<Longrightarrow> \<exists>r. x = Fin r \<and> d = truncate_real r"
  by (cases x) (auto split: if_splits)

lemma signed_duty_cycle_unit:
  assumes "motor_speed m = Fin s" and "- 1 \<le> s" and "s \<le> 1" and "pwm_period m < 2 ^ 16"
  shows "\<exists>duty. signed_duty_cycle m = Inr duty
           \<and> - int (pwm_period m) \<le> duty \<and> duty \<le> int (pwm_period m)
           \<and> (0 \<le> s \<longrightarrow> 0 \<le> duty) \<and> (s \<le> 0 \<longrightarrow> duty \<le> 0)
           \<and> (1 \<le> \<bar>s\<bar> * real (pwm_period m) \<longrightarrow> duty \<noteq> 0)"
  using f32_mul_speed_period [OF assms(2-4)] by (simp add: signed_duty_cycle_def assms(1))

lemma level_calls_slow:
  assumes "signed_duty_cycle m = Inr duty" and "motor_decay_mode m = SLOW_DECAY"
    and "- int (pwm_period m) \<le> duty" and "duty \<le> int (pwm_period m)"
    and "pwm_period m < 2 ^ 16"
  shows "level_calls m = Inr
     (if 0 \<le> duty
      then [Pwm_set_gpio_level (pin_pos m) (pwm_period m),
            Pwm_set_gpio_level (pin_neg m) (nat (int (pwm_period m) - duty))]
      else [Pwm_set_gpio_level (pin_pos m) (nat (int (pwm_period m) + duty)),
            Pwm_set_gpio_level (pin_neg m) (pwm_period m)])"
proof -
  have p: "int (pwm_period m) < 2 ^ 16"
    using assms(5) by (metis of_nat_less_numeral_power_cancel_iff)
  have a: "to_uint16 (int (pwm_period m)) = pwm_period m"
    using p by (simp add: to_uint16_id)
  have b: "to_uint16 (int (pwm_period m) - duty) = nat (int (pwm_period m) - duty)"
    if "0 \<le> duty" using that assms(4) p by (intro to_uint16_id) linarith+
  have c: "to_uint16 (int (pwm_period m) + duty) = nat (int (pwm_period m) + duty)"
    if "\<not> 0 \<le> duty" using that assms(3) p by (intro to_uint16_id) linarith+
  show ?thesis using a b c by (simp add: level_calls_def assms(1,2))
qed

lemma level_calls_fast:
  assumes "signed_duty_cycle m = Inr duty" and "motor_decay_mode m = FAST_DECAY"
    and "- int (pwm_period m) \<le> duty" and "duty \<le> int (pwm_period m)"
    and "pwm_period m < 2 ^ 16"
  shows "level_calls m = Inr
     (if 0 \<le> duty
      then [Pwm_set_gpio_level (pin_pos m) (nat duty), Pwm_set_gpio_level (pin_neg m) 0]
      else [Pwm_set_gpio_level (pin_pos m) 0, Pwm_set_gpio_level (pin_neg m) (nat (- duty))])"
proof -
  have p: "int (pwm_period m) < 2 ^ 16"
    using assms(5) by (metis of_nat_less_numeral_power_cancel_iff)
  have z: "to_uint16 0 = 0" by (simp add: to_uint16_def)
  have b: "to_uint16 duty = nat duty"
    if "0 \<le> duty" using that assms(4) p by (intro to_uint16_id) linarith+
  have c: "to_uint16 (0 - duty) = nat (- duty)"
    if "\<not> 0 \<le> duty"
  proof -
    have "to_uint16 (- duty) = nat (- duty)"
      using that assms(3) p by (intro to_uint16_id) linarith+
    then show ?thesis by simp
  qed
  have d: "duty \<noteq> - (2 ^ 31)"
  proof -
    have "- (2 ^ 16) < duty" using assms(3) p by linarith
    then show ?thesis by simp
  qed
  show ?thesis using z b c d by (simp add: level_calls_def assms(1,2))
qed

lemma update_pwm_unit:
  assumes "motor_speed m = Fin s" and "- 1 \<le> s" and "s \<le> 1" and "pwm_period m < 2 ^ 16"
  shows "\<exists>duty. signed_duty_cycle m = Inr duty
     \<and> - int (pwm_period m) \<le> duty \<and> duty \<le> int (pwm_period m)
     \<and> (0 \<le> s \<longrightarrow> 0 \<le> duty) \<and> (s \<le> 0 \<longrightarrow> duty \<le> 0)
     \<and> (1 \<le> \<bar>s\<bar> * real (pwm_period m) \<longrightarrow> duty \<noteq> 0)
     \<and> (motor_decay_mode m = FAST_DECAY \<longrightarrow> update_pwm m hw = Inr (hw @
           (if 0 \<le> s
            then [Pwm_set_gpio_level (pin_pos m) (nat duty), Pwm_set_gpio_level (pin_neg m) 0]
            else [Pwm_set_gpio_level (pin_pos m) 0, Pwm_set_gpio_level (pin_neg m) (nat (- duty))])))
     \<and> (motor_decay_mode m = SLOW_DECAY \<longrightarrow> update_pwm m hw = Inr (hw @
           (if 0 \<le> s
            then [Pwm_set_gpio_level (pin_pos m) (pwm_period m),
                  Pwm_set_gpio_level (pin_neg m) (nat (int (pwm_period m) - duty))]
            else [Pwm_set_gpio_level (pin_pos m) (nat (int (pwm_period m) + duty)),
                  Pwm_set_gpio_level (pin_neg m) (pwm_period m)])))"
proof -
  from signed_duty_cycle_unit [OF assms]
  obtain duty where d: "signed_duty_cycle m = Inr duty"
    "- int (pwm_period m) \<le> duty" "duty \<le> int (pwm_period m)"
    "0 \<le> s \<longrightarrow> 0 \<le> duty" "s \<le> 0 \<longrightarrow> duty \<le> 0"
    "1 \<le> \<bar>s\<bar> * real (pwm_period m) \<longrightarrow> duty \<noteq> 0" by blast
  have zero: "duty = 0" if "\<not> 0 \<le> s" "0 \<le> duty" using that d(5) by auto
  have fast: "update_pwm m hw = Inr (hw @
           (if 0 \<le> s
            then [Pwm_set_gpio_level (pin_pos m) (nat duty), Pwm_set_gpio_level (pin_neg m) 0]
            else [Pwm_set_gpio_level (pin_pos m) 0, Pwm_set_gpio_level (pin_neg m) (nat (- duty))]))"
    if "motor_decay_mode m = FAST_DECAY"
    using level_calls_fast [OF d(1) that d(2,3) assms(4)] d(4) zero
    by (auto simp: update_pwm_def)
  have slow: "update_pwm m hw = Inr (hw @
           (if 0 \<le> s
            then [Pwm_set_gpio_level (pin_pos m) (pwm_period m),
                  Pwm_set_gpio_level (pin_neg m) (nat (int (pwm_period m) - duty))]
            else [Pwm_set_gpio_level (pin_pos m) (nat (int (pwm_period m) + duty)),
                  Pwm_set_gpio_level (pin_neg m) (pwm_period m)]))"
    if "motor_decay_mode m = SLOW_DECAY"
    using level_calls_slow [OF d(1) that d(2,3) assms(4)] d(4) zero
    by (auto simp: update_pwm_def)
  show ?thesis using d fast slow by blast
qed

section \<open>The duty cycle and the two channel levels\<close>

lemma f32_round_m2500: "f32_round (- 2500) = Fin (- 2500)"
  using f32_round_binade [of 137 "- 2500"] by (simp add: round_half_even_def)

lemma f32_round_0: "f32_round 0 = Fin 0"
  using f32_round_between [of 0 0 0] by auto

lemma f32_round_1_4: "f32_round (1 / 4) = Fin (1 / 4)"
  using f32_round_binade [of 124 "1 / 4"] by (simp add: round_half_even_def)

lemma f32_round_1250: "f32_round 1250 = Fin 1250"
  using f32_round_binade [of 136 1250] by (simp add: round_half_even_def)

lemma f32_round_3_4: "f32_round (3 / 4) = Fin (3 / 4)"
  using f32_round_binade [of 125 "3 / 4"] by (simp add: round_half_even_def)

text \<open>
  C1, as the code has it. For every speed in \<open>[-1, 1]\<close>, every 16-bit period and both decay
  modes, the level update takes as duty cycle the single-precision product
  \<open>speed * period\<close> with its fraction dropped (rounded towards zero, not to the nearest
  integer), a signed integer in \<open>[-period, period]\<close>, and writes: in \<open>FAST_DECAY\<close>,
  \<open>(duty, 0)\<close> when \<open>speed \<ge> 0\<close> and \<open>(0, -duty)\<close> when \<open>speed < 0\<close>; in
  \<open>SLOW_DECAY\<close>, \<open>(period, period - duty)\<close> when \<open>speed \<ge> 0\<close> and
  \<open>(period + duty, period)\<close> when \<open>speed < 0\<close>.
\<close>

theorem update_pwm_truncated_duty:
  assumes "motor_speed m = Fin s" and "- 1 \<le> s" and "s \<le> 1" and "pwm_period m < 2 ^ 16"
  shows "\<exists>r duty. f32_mul (Fin s) (f32_of_nat (pwm_period m)) = Fin r
     \<and> duty = truncate_real r
     \<and> - int (pwm_period m) \<le> duty \<and> duty \<le> int (pwm_period m)
     \<and> (motor_decay_mode m = FAST_DECAY \<longrightarrow> update_pwm m hw = Inr (hw @
           (if 0 \<le> s
            then [Pwm_set_gpio_level (pin_pos m) (nat duty), Pwm_set_gpio_level (pin_neg m) 0]
            else [Pwm_set_gpio_level (pin_pos m) 0, Pwm_set_gpio_level (pin_neg m) (nat (- duty))])))
     \<and> (motor_decay_mode m = SLOW_DECAY \<longrightarrow> update_pwm m hw = Inr (hw @
           (if 0 \<le> s
            then [Pwm_set_gpio_level (pin_pos m) (pwm_period m),
                  Pwm_set_gpio_level (pin_neg m) (nat (int (pwm_period m) - duty))]
            else [Pwm_set_gpio_level (pin_pos m) (nat (int (pwm_period m) + duty)),
                  Pwm_set_gpio_level (pin_neg m) (pwm_period m)])))"
proof -
  from update_pwm_unit [OF assms, of hw]
  obtain duty where d: "signed_duty_cycle m = Inr duty"
    "- int (pwm_period m) \<le> duty" "duty \<le> int (pwm_period m)"
    "motor_decay_mode m = FAST_DECAY \<longrightarrow> update_pwm m hw = Inr (hw @
           (if 0 \<le> s
            then [Pwm_set_gpio_level (pin_pos m) (nat duty), Pwm_set_gpio_level (pin_neg m) 0]
            else [Pwm_set_gpio_level (pin_pos m) 0, Pwm_set_gpio_level (pin_neg m) (nat (- duty))]))"
    "motor_decay_mode m = SLOW_DECAY \<longrightarrow> update_pwm m hw = Inr (hw @
           (if 0 \<le> s
            then [Pwm_set_gpio_level (pin_pos m) (pwm_period m),
                  Pwm_set_gpio_level (pin_neg m) (nat (int (pwm_period m) - duty))]
            else [Pwm_set_gpio_level (pin_pos m) (nat (int (pwm_period m) + duty)),
                  Pwm_set_gpio_level (pin_neg m) (pwm_period m)]))"
    by blast
  from d(1) have "f32_to_int32 (f32_mul (Fin s) (f32_of_nat (pwm_period m))) = Inr duty"
    by (simp add: signed_duty_cycle_def assms(1))
  from f32_to_int32_InrD [OF this]
  obtain r where "f32_mul (Fin s) (f32_of_nat (pwm_period m)) = Fin r" "duty = truncate_real r"
    by blast
  then show ?thesis using d(2-5) by blast
qed

text \<open>Half speed backwards at period 5000, braking: the levels are 2500 and 5000.\<close>

theorem update_pwm_truncated_duty_witness:
  "- 1 \<le> (- 1 / 2 :: real) \<and> (- 1 / 2 :: real) \<le> 1 \<and> (5000 :: nat) < 2 ^ 16 \<and>
   update_pwm \<lparr>pin_pos = 0, pin_neg = 1, pwm_cfg = pwm_get_default_config, pwm_period = 5000,
      pwm_frequency = Fin 25000, motor_decay_mode = SLOW_DECAY, motor_speed = Fin (- 1 / 2)\<rparr> []
     = Inr [Pwm_set_gpio_level 0 2500, Pwm_set_gpio_level 1 5000]"
proof -
  have "f32_mul (Fin (- 1 / 2)) (f32_of_nat 5000) = Fin (- 2500)"
    by (simp add: f32_mul_def f32_of_nat_exact f32_round_m2500)
  moreover have "truncate_real (- 2500) = - 2500" by (simp add: truncate_real_def)
  ultimately show ?thesis
    using update_pwm_truncated_duty [of "\<lparr>pin_pos = 0, pin_neg = 1,
      pwm_cfg = pwm_get_default_config, pwm_period = 5000, pwm_frequency = Fin 25000,
      motor_decay_mode = SLOW_DECAY, motor_speed = Fin (- 1 / 2)\<rparr>" "- 1 / 2" "[]"]
    by simp
qed

text \<open>
  C1 as stated fails: at speed 0.75 and period 1 the nearest integer to
  \<open>speed * period\<close> is 1, so the positive level would be 1; the driver writes 0 to both
  channels.
\<close>

theorem update_pwm_rounds_counterexample:
  "update_pwm \<lparr>pin_pos = 0, pin_neg = 1, pwm_cfg = pwm_get_default_config, pwm_period = 1,
      pwm_frequency = Fin 25000, motor_decay_mode = FAST_DECAY, motor_speed = Fin (3 / 4)\<rparr> []
     = Inr [Pwm_set_gpio_level 0 0, Pwm_set_gpio_level 1 0]
   \<and> round (3 / 4 * real 1) = 1"
proof -
  have "f32_mul (Fin (3 / 4)) (f32_of_nat 1) = Fin (3 / 4)"
    by (simp add: f32_mul_def f32_of_nat_exact f32_round_3_4)
  moreover have "truncate_real (3 / 4) = 0" by (simp add: truncate_real_def)
  moreover have "round (3 / 4 :: real) = 1" by (simp add: round_def)
  ultimately show ?thesis
    by (simp add: update_pwm_def level_calls_def signed_duty_cycle_def to_uint16_def)
qed

text \<open>
  C2, as the code has it. For every speed in \<open>[-1, 1]\<close> and every 16-bit period, in
  \<open>SLOW_DECAY\<close> mode one channel is at \<open>period\<close> and the other at
  \<open>period - \<bar>duty\<bar>\<close>: the two levels sum to \<open>2 * period - \<bar>duty\<bar>\<close>, for
  \<open>speed \<ge> 0\<close> and for \<open>speed < 0\<close> alike.
\<close>

theorem slow_decay_level_sum:
  assumes "motor_decay_mode m = SLOW_DECAY"
    and "motor_speed m = Fin s" and "- 1 \<le> s" and "s \<le> 1" and "pwm_period m < 2 ^ 16"
  shows "\<exists>duty pos neg. signed_duty_cycle m = Inr duty
     \<and> update_pwm m hw = Inr (hw @ [Pwm_set_gpio_level (pin_pos m) pos,
                                    Pwm_set_gpio_level (pin_neg m) neg])
     \<and> int pos + int neg = 2 * int (pwm_period m) - \<bar>duty\<bar>"
proof -
  from update_pwm_unit [OF assms(2-5), of hw] assms(1)
  obtain duty where d: "signed_duty_cycle m = Inr duty"
    "- int (pwm_period m) \<le> duty" "duty \<le> int (pwm_period m)"
    "0 \<le> s \<longrightarrow> 0 \<le> duty" "s \<le> 0 \<longrightarrow> duty \<le> 0"
    "update_pwm m hw = Inr (hw @
           (if 0 \<le> s
            then [Pwm_set_gpio_level (pin_pos m) (pwm_period m),
                  Pwm_set_gpio_level (pin_neg m) (nat (int (pwm_period m) - duty))]
            else [Pwm_set_gpio_level (pin_pos m) (nat (int (pwm_period m) + duty)),
                  Pwm_set_gpio_level (pin_neg m) (pwm_period m)]))"
    by blast
  show ?thesis
  proof (cases "0 \<le> s")
    case True
    then have "int (pwm_period m) + int (nat (int (pwm_period m) - duty))
        = 2 * int (pwm_period m) - \<bar>duty\<bar>"
      using d(3,4) by simp
    then show ?thesis using d(1,6) True by auto
  next
    case False
    then have "int (nat (int (pwm_period m) + duty)) + int (pwm_period m)
        = 2 * int (pwm_period m) - \<bar>duty\<bar>"
      using d(2,5) by simp
    then show ?thesis using d(1,6) False by auto
  qed
qed

text \<open>Quarter speed at period 5000: the duty cycle is 1250, the levels sum to 8750.\<close>

theorem slow_decay_level_sum_witness:
  "- 1 \<le> (1 / 4 :: real) \<and> (1 / 4 :: real) \<le> 1 \<and> (5000 :: nat) < 2 ^ 16 \<and>
   (\<exists>pos neg. update_pwm \<lparr>pin_pos = 0, pin_neg = 1, pwm_cfg = pwm_get_default_config,
      pwm_period = 5000, pwm_frequency = Fin 25000, motor_decay_mode = SLOW_DECAY,
      motor_speed = Fin (1 / 4)\<rparr> []
     = Inr [Pwm_set_gpio_level 0 pos, Pwm_set_gpio_level 1 neg]
     \<and> int pos + int neg = 2 * 5000 - 1250)"
proof -
  have "f32_mul (Fin (1 / 4)) (f32_of_nat 5000) = Fin 1250"
    by (simp add: f32_mul_def f32_of_nat_exact f32_round_1250)
  moreover have "truncate_real 1250 = 1250" by (simp add: truncate_real_def)
  ultimately have "signed_duty_cycle \<lparr>pin_pos = 0, pin_neg = 1,
      pwm_cfg = pwm_get_default_config, pwm_period = 5000, pwm_frequency = Fin 25000,
      motor_decay_mode = SLOW_DECAY, motor_speed = Fin (1 / 4)\<rparr> = Inr 1250"
    by (simp add: signed_duty_cycle_def)
  then show ?thesis
    using slow_decay_level_sum [of "\<lparr>pin_pos = 0, pin_neg = 1,
      pwm_cfg = pwm_get_default_config, pwm_period = 5000, pwm_frequency = Fin 25000,
      motor_decay_mode = SLOW_DECAY, motor_speed = Fin (1 / 4)\<rparr>" "1 / 4" "[]"]
    by simp
qed

text \<open>
  C2 as stated fails: at speed 0 and period 1 both levels are 1, and their sum is 2, not
  the period.
\<close>

theorem slow_decay_sum_counterexample:
  "update_pwm \<lparr>pin_pos = 0, pin_neg = 1, pwm_cfg = pwm_get_default_config, pwm_period = 1,
      pwm_frequency = Fin 25000, motor_decay_mode = SLOW_DECAY, motor_speed = Fin 0\<rparr> []
     = Inr [Pwm_set_gpio_level 0 1, Pwm_set_gpio_level 1 1]
   \<and> (1 :: nat) + 1 \<noteq> 1"
proof -
  have "f32_mul (Fin 0) (f32_of_nat 1) = Fin 0"
    by (simp add: f32_mul_def f32_of_nat_exact f32_round_0)
  moreover have "truncate_real 0 = 0" by (simp add: truncate_real_def)
  ultimately show ?thesis
    by (simp add: update_pwm_def level_calls_def signed_duty_cycle_def to_uint16_def)
qed

text \<open>
  C8, as the code has it. For every speed in \<open>[-1, 1]\<close> and every 16-bit period, the
  \<open>FAST_DECAY\<close> levels have at most one nonzero channel: for \<open>speed > 0\<close> the negative
  channel is zero, and the positive one is nonzero when \<open>speed * period \<ge> 1\<close>; for
  \<open>speed < 0\<close> the positive channel is zero, and the negative one is nonzero when
  \<open>-speed * period \<ge> 1\<close>.
\<close>

theorem fast_decay_single_channel:
  assumes "motor_decay_mode m = FAST_DECAY"
    and "motor_speed m = Fin s" and "- 1 \<le> s" and "s \<le> 1" and "pwm_period m < 2 ^ 16"
  shows "\<exists>pos neg.
       update_pwm m hw = Inr (hw @ [Pwm_set_gpio_level (pin_pos m) pos,
                                    Pwm_set_gpio_level (pin_neg m) neg])
     \<and> (pos = 0 \<or> neg = 0)
     \<and> (0 < s \<longrightarrow> neg = 0 \<and> (1 \<le> s * real (pwm_period m) \<longrightarrow> pos \<noteq> 0))
     \<and> (s < 0 \<longrightarrow> pos = 0 \<and> (1 \<le> - s * real (pwm_period m) \<longrightarrow> neg \<noteq> 0))"
proof -
  from update_pwm_unit [OF assms(2-5), of hw] assms(1)
  obtain duty where d: "0 \<le> s \<longrightarrow> 0 \<le> duty" "s \<le> 0 \<longrightarrow> duty \<le> 0"
    "1 \<le> \<bar>s\<bar> * real (pwm_period m) \<longrightarrow> duty \<noteq> 0"
    "update_pwm m hw = Inr (hw @
           (if 0 \<le> s
            then [Pwm_set_gpio_level (pin_pos m) (nat duty), Pwm_set_gpio_level (pin_neg m) 0]
            else [Pwm_set_gpio_level (pin_pos m) 0, Pwm_set_gpio_level (pin_neg m) (nat (- duty))]))"
    by blast
  show ?thesis
  proof (cases "0 \<le> s")
    case True
    have "nat duty \<noteq> 0" if "1 \<le> s * real (pwm_period m)"
      using that d(1,3) True by auto
    then show ?thesis using d(4) True by auto
  next
    case False
    have "nat (- duty) \<noteq> 0" if "1 \<le> - s * real (pwm_period m)"
      using that d(2,3) False by auto
    then show ?thesis using d(4) False by auto
  qed
qed

text \<open>Quarter speed forwards at period 5000: only the positive channel is driven.\<close>

theorem fast_decay_single_channel_witness:
  "- 1 \<le> (1 / 4 :: real) \<and> (1 / 4 :: real) \<le> 1 \<and> (5000 :: nat) < 2 ^ 16 \<and>
   (\<exists>pos. update_pwm \<lparr>pin_pos = 0, pin_neg = 1, pwm_cfg = pwm_get_default_config,
      pwm_period = 5000, pwm_frequency = Fin 25000, motor_decay_mode = FAST_DECAY,
      motor_speed = Fin (1 / 4)\<rparr> []
     = Inr [Pwm_set_gpio_level 0 pos, Pwm_set_gpio_level 1 0] \<and> pos \<noteq> 0)"
  using fast_decay_single_channel [of "\<lparr>pin_pos = 0, pin_neg = 1,
      pwm_cfg = pwm_get_default_config, pwm_period = 5000, pwm_frequency = Fin 25000,
      motor_decay_mode = FAST_DECAY, motor_speed = Fin (1 / 4)\<rparr>" "1 / 4" "[]"]
  by auto

text \<open>
  C8 as stated fails: at the nonzero speed 0.25 and period 1 the duty cycle is 0 and both
  channels are written 0.
\<close>

theorem fast_decay_both_zero_counterexample:
  "(1 / 4 :: real) \<noteq> 0 \<and> (1 :: nat) \<ge> 1 \<and>
   update_pwm \<lparr>pin_pos = 0, pin_neg = 1, pwm_cfg = pwm_get_default_config, pwm_period = 1,
      pwm_frequency = Fin 25000, motor_decay_mode = FAST_DECAY, motor_speed = Fin (1 / 4)\<rparr> []
     = Inr [Pwm_set_gpio_level 0 0, Pwm_set_gpio_level 1 0]"
proof -
  have "f32_mul (Fin (1 / 4)) (f32_of_nat 1) = Fin (1 / 4)"
    by (simp add: f32_mul_def f32_of_nat_exact f32_round_1_4)
  moreover have "truncate_real (1 / 4) = 0" by (simp add: truncate_real_def)
  ultimately show ?thesis
    by (simp add: update_pwm_def level_calls_def signed_duty_cycle_def to_uint16_def)
qed

text \<open>
  C9. At speed exactly 0, for every 16-bit period, the level update writes \<open>(0, 0)\<close> in
  \<open>FAST_DECAY\<close> mode and \<open>(period, period)\<close> in \<open>SLOW_DECAY\<close> mode.
\<close>

theorem zero_speed_levels:
  assumes "motor_speed m = Fin 0" and "pwm_period m < 2 ^ 16"
  shows "(motor_decay_mode m = FAST_DECAY \<longrightarrow>
            update_pwm m hw = Inr (hw @ [Pwm_set_gpio_level (pin_pos m) 0,
                                         Pwm_set_gpio_level (pin_neg m) 0]))
       \<and> (motor_decay_mode m = SLOW_DECAY \<longrightarrow>
            update_pwm m hw = Inr (hw @ [Pwm_set_gpio_level (pin_pos m) (pwm_period m),
                                         Pwm_set_gpio_level (pin_neg m) (pwm_period m)]))"
proof -
  have "- 1 \<le> (0::real)" "(0::real) \<le> 1" by simp_all
  from update_pwm_unit [OF assms(1) this assms(2), of hw]
  obtain duty where d: "0 \<le> duty" "duty \<le> 0"
    "motor_decay_mode m = FAST_DECAY \<longrightarrow> update_pwm m hw = Inr (hw @
            [Pwm_set_gpio_level (pin_pos m) (nat duty), Pwm_set_gpio_level (pin_neg m) 0])"
    "motor_decay_mode m = SLOW_DECAY \<longrightarrow> update_pwm m hw = Inr (hw @
            [Pwm_set_gpio_level (pin_pos m) (pwm_period m),
             Pwm_set_gpio_level (pin_neg m) (nat (int (pwm_period m) - duty))])"
    by auto
  have "duty = 0" using d(1,2) by simp
  then show ?thesis using d(3,4) by simp
qed

text \<open>Speed 0 at period 5000, in both modes.\<close>

theorem zero_speed_levels_witness:
  "(5000 :: nat) < 2 ^ 16 \<and>
   update_pwm \<lparr>pin_pos = 0, pin_neg = 1, pwm_cfg = pwm_get_default_config,
      pwm_period = 5000, pwm_frequency = Fin 25000, motor_decay_mode = SLOW_DECAY,
      motor_speed = Fin 0\<rparr> []
     = Inr [Pwm_set_gpio_level 0 5000, Pwm_set_gpio_level 1 5000] \<and>
   update_pwm \<lparr>pin_pos = 0, pin_neg = 1, pwm_cfg = pwm_get_default_config,
      pwm_period = 5000, pwm_frequency = Fin 25000, motor_decay_mode = FAST_DECAY,
      motor_speed = Fin 0\<rparr> []
     = Inr [Pwm_set_gpio_level 0 0, Pwm_set_gpio_level 1 0]"
  using zero_speed_levels [of "\<lparr>pin_pos = 0, pin_neg = 1,
      pwm_cfg = pwm_get_default_config, pwm_period = 5000, pwm_frequency = Fin 25000,
      motor_decay_mode = SLOW_DECAY, motor_speed = Fin 0\<rparr>" "[]"]
    zero_speed_levels [of "\<lparr>pin_pos = 0, pin_neg = 1,
      pwm_cfg = pwm_get_default_config, pwm_period = 5000, pwm_frequency = Fin 25000,
      motor_decay_mode = FAST_DECAY, motor_speed = Fin 0\<rparr>" "[]"]
  by simp

section \<open>The factoring loop\<close>

lemma pwm_factor_step_unfold:
  "pwm_factor_step (d, p) =
     (if 80 \<le> d \<and> d mod 5 = 0 \<and> p * 5 < 65535 then Some (d div 5, p * 5)
      else if 48 \<le> d \<and> d mod 3 = 0 \<and> p * 3 < 65535 then Some (d div 3, p * 3)
      else if 32 \<le> d \<and> p * 2 \<le> 65535 then Some (d div 2, p * 2)
      else None)"
proof -
  have a: "(p * 5) mod 2 ^ 16 = p * 5" if "p * 5 < 65535" using that by simp
  have b: "(p * 3) mod 2 ^ 16 = p * 3" if "p * 3 < 65535" using that by simp
  have c: "(p * 2) mod 2 ^ 16 = p * 2" if "p * 2 \<le> 65535" using that by simp
  show ?thesis
    unfolding pwm_factor_step_def MAX_PWM_PERIOD_def push_bit_eq_mult prod.case
    using a b c by simp
qed

lemma pwm_factor_step_cases:
  assumes "pwm_factor_step (d, p) = Some (d', p')"
  obtains q where "q = 5 \<or> q = 3 \<or> q = 2" "q * 16 \<le> d" "p * q \<le> MAX_PWM_PERIOD"
    "d' = d div q" "p' = p * q" "q \<noteq> 2 \<longrightarrow> d mod q = 0"
proof -
  consider (five) "80 \<le> d" "d mod 5 = 0" "p * 5 < 65535" "d' = d div 5" "p' = p * 5"
    | (three) "48 \<le> d" "d mod 3 = 0" "p * 3 < 65535" "d' = d div 3" "p' = p * 3"
    | (two) "32 \<le> d" "p * 2 \<le> 65535" "d' = d div 2" "p' = p * 2"
    using assms unfolding pwm_factor_step_unfold by (auto split: if_splits)
  then show ?thesis
  proof cases
    case five
    then show ?thesis using that [of 5] by (simp add: MAX_PWM_PERIOD_def)
  next
    case three
    then show ?thesis using that [of 3] by (simp add: MAX_PWM_PERIOD_def)
  next
    case two
    then show ?thesis using that [of 2] by (simp add: MAX_PWM_PERIOD_def)
  qed
qed

lemma pwm_factor_step_less:
  assumes "pwm_factor_step (d, p) = Some (d', p')"
  shows "d' < d"
proof -
  from assms obtain q where "q = 5 \<or> q = 3 \<or> q = 2" "q * 16 \<le> d" "d' = d div q"
    by (rule pwm_factor_step_cases)
  then show ?thesis by auto
qed

lemma pwm_factor_loop_break: "pwm_factor_step (pwm_factor_loop s) = None"
proof (induction s rule: pwm_factor_loop.induct)
  case (1 s)
  then show ?case by (subst pwm_factor_loop.simps) (simp split: option.splits)
qed

lemma pwm_factor_run_doubling:
  "MAX_PWM_PERIOD < snd s * 2 ^ k \<Longrightarrow> pwm_factor_run (Suc k) s = Some (pwm_factor_loop s)"
proof (induction k arbitrary: s)
  case 0
  obtain d p where s: "s = (d, p)" by (cases s)
  have "pwm_factor_step (d, p) = None"
  proof (cases "pwm_factor_step (d, p)")
    case (Some s')
    obtain d' p' where "s' = (d', p')" by (cases s')
    with Some have "pwm_factor_step (d, p) = Some (d', p')" by simp
    then obtain q where "q = 5 \<or> q = 3 \<or> q = 2" "p * q \<le> MAX_PWM_PERIOD"
      by (rule pwm_factor_step_cases)
    then have False using 0 s by auto
    then show ?thesis ..
  qed simp
  then show ?case using s by (subst pwm_factor_loop.simps) simp
next
  case (Suc k)
  obtain d p where s: "s = (d, p)" by (cases s)
  show ?case
  proof (cases "pwm_factor_step s")
    case None
    then show ?thesis by (subst pwm_factor_loop.simps) simp
  next
    case (Some s')
    obtain d' p' where s': "s' = (d', p')" by (cases s')
    with Some s have "pwm_factor_step (d, p) = Some (d', p')" by simp
    then obtain q where q: "q = 5 \<or> q = 3 \<or> q = 2" "p' = p * q"
      by (rule pwm_factor_step_cases)
    have "p * 2 \<le> p'" using q by auto
    then have "p * 2 * 2 ^ k \<le> p' * 2 ^ k" by (rule mult_le_mono1)
    moreover have "MAX_PWM_PERIOD < p * 2 * 2 ^ k" using Suc.prems s by (simp add: mult.assoc)
    ultimately have "MAX_PWM_PERIOD < p' * 2 ^ k" by (rule less_le_trans [rotated])
    then have "MAX_PWM_PERIOD < snd s' * 2 ^ k" using s' by simp
    then have "pwm_factor_run (Suc k) s' = Some (pwm_factor_loop s')" by (rule Suc.IH)
    then show ?thesis using Some by (subst pwm_factor_loop.simps) simp
  qed
qed

lemma pwm_factor_loop_80000: "pwm_factor_loop (80000, 1) = (16, 5000)"
  by (simp add: pwm_factor_loop.simps pwm_factor_step_unfold)

lemma not_17_dvd_mult: "\<not> 17 dvd (p::nat) \<Longrightarrow> q = 5 \<or> q = 3 \<or> q = 2 \<Longrightarrow> p' = p * q \<Longrightarrow> \<not> 17 dvd p'"
proof -
  assume a: "\<not> 17 dvd p" "q = 5 \<or> q = 3 \<or> q = 2" "p' = p * q"
  have "coprime (17::nat) q" using a(2) by (auto simp: coprime_iff_gcd_eq_1 gcd_non_0_nat)
  then have "17 dvd p * q \<longleftrightarrow> 17 dvd p" by (rule coprime_dvd_mult_left_iff)
  then show ?thesis using a by simp
qed

lemma not_17_dvd_times_5: "\<not> 17 dvd (p::nat) \<Longrightarrow> p * 5 \<noteq> 65535"
proof
  assume a: "\<not> 17 dvd p" "p * 5 = 65535"
  then have "p = 13107" by arith
  then have "17 dvd p" by simp
  then show False using a by simp
qed

lemma not_17_dvd_times_3: "\<not> 17 dvd (p::nat) \<Longrightarrow> p * 3 \<noteq> 65535"
proof
  assume a: "\<not> 17 dvd p" "p * 3 = 65535"
  then have "p = 21845" by arith
  then have "17 dvd p" by simp
  then show False using a by simp
qed

lemma loop_state_period: "loop_state d0 s \<Longrightarrow> \<not> 17 dvd snd s"
proof (induction rule: loop_state.induct)
  case loop_entry
  show ?case by simp
next
  case (loop_pass s s')
  obtain d p d' p' where s: "s = (d, p)" "s' = (d', p')" by (cases s, cases s')
  with loop_pass(2) have "pwm_factor_step (d, p) = Some (d', p')" by simp
  then obtain q where "q = 5 \<or> q = 3 \<or> q = 2" "p' = p * q"
    by (rule pwm_factor_step_cases)
  moreover have "\<not> 17 dvd p" using loop_pass.IH s by simp
  ultimately have "\<not> 17 dvd p'" by (intro not_17_dvd_mult [of p q p'])
  then show ?case using s by simp
qed

subsection \<open>Evaluations at concrete clocks and frequencies\<close>

lemma f32_round_2000000000: "f32_round 2000000000 = Fin 2000000000"
  using f32_round_binade [of 156 2000000000] by (simp add: round_half_even_def)

lemma f32_round_62500000: "f32_round 62500000 = Fin 62500000"
  using f32_round_binade [of 151 62500000] by (simp add: round_half_even_def)

lemma f32_round_80000: "f32_round 80000 = Fin 80000"
  using f32_round_binade [of 142 80000] by (simp add: round_half_even_def)

lemma f32_round_2112000000: "f32_round 2112000000 = Fin 2112000000"
  using f32_round_binade [of 156 2112000000] by (simp add: round_half_even_def)

lemma f32_round_66000000: "f32_round 66000000 = Fin 66000000"
  using f32_round_binade [of 151 66000000] by (simp add: round_half_even_def)

lemma f32_round_33: "f32_round 33 = Fin 33"
  using f32_round_binade [of 131 33] by (simp add: round_half_even_def)

lemma f32_round_192000016: "f32_round 192000016 = Fin 192000016"
  using f32_round_binade [of 153 192000016] by (simp add: round_half_even_def)

lemma f32_round_32: "f32_round 32 = Fin 32"
  using f32_round_binade [of 131 32] by (simp add: round_half_even_def)

lemma freq_valid_25000: "freq_valid 125000000 (Fin 25000)"
  by (simp add: freq_valid_def f32_ge_def f32_of_nat_def drop_bit_eq_div f32_round_62500000)

lemma initial_div16_25000: "initial_div16 125000000 (Fin 25000) = Inr 80000"
  by (simp add: initial_div16_def f32_of_nat_def push_bit_eq_mult f32_div_def
      f32_round_2000000000 f32_round_80000 truncate_real_def)

lemma freq_valid_64000000: "freq_valid 132000000 (Fin 64000000)"
  by (simp add: freq_valid_def f32_ge_def f32_of_nat_def drop_bit_eq_div f32_round_66000000)

lemma initial_div16_64000000: "initial_div16 132000000 (Fin 64000000) = Inr 33"
  by (simp add: initial_div16_def f32_of_nat_def push_bit_eq_mult f32_div_def
      f32_round_2112000000 f32_round_33 truncate_real_def)

lemma freq_valid_6000000_5: "\<not> freq_valid 12000001 (Fin (12000001 / 2))"
  by (simp add: freq_valid_def f32_ge_def drop_bit_eq_div f32_of_nat_exact)

lemma initial_div16_6000000_5: "initial_div16 12000001 (Fin (12000001 / 2)) = Inr 32"
  by (simp add: initial_div16_def f32_of_nat_def push_bit_eq_mult f32_div_def
      f32_round_192000016 f32_round_32 truncate_real_def)

lemma f32_round_62500003: "f32_round 62500003 = Fin 62500004"
  using f32_round_binade [of 151 62500003] by (simp add: round_half_even_def)

lemma f32_round_2000000096: "f32_round 2000000096 = Fin 2000000128"
  using f32_round_binade [of 156 2000000096] by (simp add: round_half_even_def)

lemma freq_valid_62500004: "freq_valid 125000006 (Fin 62500004)"
  by (simp add: freq_valid_def f32_ge_def f32_of_nat_def drop_bit_eq_div f32_round_62500003)

lemma initial_div16_62500004: "initial_div16 125000006 (Fin 62500004) = Inr 32"
  by (simp add: initial_div16_def f32_of_nat_def push_bit_eq_mult f32_div_def
      f32_round_2000000096 f32_round_32 truncate_real_def)

lemma calculate_pwm_factors_eval:
  "freq_valid source_hz freq \<Longrightarrow> initial_div16 source_hz freq = Inr d0 \<Longrightarrow>
   pwm_factor_loop (d0, 1) = (div16, period) \<Longrightarrow> 16 \<le> div16 \<Longrightarrow> div16 < 4096 \<Longrightarrow>
   calculate_pwm_factors source_hz freq = Inr (Some (period, div16))"
  by (simp add: calculate_pwm_factors_def push_bit_eq_mult)

lemma pwm_factor_loop_33: "pwm_factor_loop (33, 1) = (16, 2)"
  by (simp add: pwm_factor_loop.simps pwm_factor_step_unfold)

lemma pwm_factor_loop_32: "pwm_factor_loop (32, 1) = (16, 2)"
  by (simp add: pwm_factor_loop.simps pwm_factor_step_unfold)

subsection \<open>Termination\<close>

text \<open>
  C7. The factoring loop terminates, whatever divider it is entered with (so for every
  in-range frequency and every system clock): each pass that applies a prime strictly
  reduces \<open>div16\<close> and leaves \<open>period\<close> at most \<open>MAX_PWM_PERIOD\<close>, and entered with
  \<open>period = 1\<close> the loop reaches its \<^verbatim>\<open>break\<close> within 17 passes, in the state
  \<open>pwm_factor_loop\<close> returns.
\<close>

theorem pwm_factor_loop_terminates:
  "(\<forall>d' p'. pwm_factor_step (d, p) = Some (d', p') \<longrightarrow> d' < d \<and> p' \<le> MAX_PWM_PERIOD)
   \<and> pwm_factor_run 17 (d, 1) = Some (pwm_factor_loop (d, 1))
   \<and> pwm_factor_step (pwm_factor_loop (d, 1)) = None"
proof -
  have a: "d' < d \<and> p' \<le> MAX_PWM_PERIOD" if "pwm_factor_step (d, p) = Some (d', p')" for d' p'
  proof -
    from that obtain q where "p * q \<le> MAX_PWM_PERIOD" "p' = p * q"
      by (rule pwm_factor_step_cases)
    then show ?thesis using pwm_factor_step_less [OF that] by simp
  qed
  have "MAX_PWM_PERIOD < snd (d, 1 :: nat) * 2 ^ 16" by (simp add: MAX_PWM_PERIOD_def)
  then have "pwm_factor_run (Suc 16) (d, 1) = Some (pwm_factor_loop (d, 1))"
    by (rule pwm_factor_run_doubling)
  moreover have "Suc 16 = 17" by simp
  ultimately have b: "pwm_factor_run 17 (d, 1) = Some (pwm_factor_loop (d, 1))" by (simp only:)
  show ?thesis using a b pwm_factor_loop_break by blast
qed

text \<open>Entered with 80000 (125 MHz, 25 kHz): the first pass applies 5, the loop ends in (16, 5000).\<close>

theorem pwm_factor_loop_terminates_witness:
  "pwm_factor_step (80000, 1) = Some (16000, 5) \<and> (16000 :: nat) < 80000
   \<and> 5 \<le> MAX_PWM_PERIOD
   \<and> pwm_factor_run 17 (80000, 1) = Some (16, 5000)
   \<and> pwm_factor_step (16, 5000) = None"
proof -
  have "pwm_factor_step (80000, 1) = Some (16000, 5)" by (simp add: pwm_factor_step_unfold)
  then show ?thesis
    using pwm_factor_loop_terminates [of 80000 1] unfolding pwm_factor_loop_80000 by blast
qed

subsection \<open>The order and the conditions of the primes\<close>

text \<open>
  C4, as the code has it. In each pass of the loop, the first prime \<open>q\<close> of 5, 3, 2 (in that
  order) with \<open>div16 \<ge> q * 16\<close>, \<open>div16 mod q = 0\<close> (not asked for \<open>q = 2\<close>, where
  an odd \<open>div16\<close> is halved with its remainder dropped) and \<open>period * q\<close> not above
  \<open>MAX_PWM_PERIOD\<close> is applied, dividing \<open>div16\<close> by \<open>q\<close> and multiplying \<open>period\<close>
  by \<open>q\<close>; when there is none the loop ends.
\<close>

theorem pwm_factor_step_priority:
  assumes "loop_state d0 (d, p)"
  shows "pwm_factor_step (d, p) =
     (case find (\<lambda>q. spec_prime_applicable q (d, p)) [5, 3, 2] of
        None \<Rightarrow> None
      | Some q \<Rightarrow> Some (d div q, p * q))"
proof -
  have "\<not> 17 dvd p" using loop_state_period [OF assms] by simp
  then have "p * 5 \<noteq> 65535" "p * 3 \<noteq> 65535"
    by (rule not_17_dvd_times_5, rule not_17_dvd_times_3)
  then have "p * 5 < 65535 \<longleftrightarrow> p * 5 \<le> 65535" "p * 3 < 65535 \<longleftrightarrow> p * 3 \<le> 65535"
    by linarith+
  then show ?thesis
    by (simp add: pwm_factor_step_unfold spec_prime_applicable_def MAX_PWM_PERIOD_def)
qed

text \<open>The second pass from 80000: the state is (16000, 5), and 5 is applied again.\<close>

theorem pwm_factor_step_priority_witness:
  "loop_state 80000 (16000, 5) \<and> pwm_factor_step (16000, 5) = Some (3200, 25)"
proof -
  have "pwm_factor_step (80000, 1) = Some (16000, 5)" by (simp add: pwm_factor_step_unfold)
  then have "loop_state 80000 (16000, 5)" using loop_entry [of 80000] by (rule loop_pass [rotated])
  then show ?thesis using pwm_factor_step_priority [of 80000 16000 5]
    by (simp add: spec_prime_applicable_def MAX_PWM_PERIOD_def)
qed

text \<open>
  C4 as stated fails where it says that \<open>div16\<close> is always even when 2 is applied: at
  132 MHz and 64 MHz the loop is entered with 33, and its first pass halves the odd 33
  to 16.
\<close>

theorem odd_divider_halved_counterexample:
  "freq_valid 132000000 (Fin 64000000)
   \<and> initial_div16 132000000 (Fin 64000000) = Inr 33
   \<and> loop_state 33 (33, 1)
   \<and> pwm_factor_step (33, 1) = Some (16, 2)
   \<and> odd (33 :: nat)"
proof -
  have "pwm_factor_step (33, 1) = Some (16, 2)" by (simp add: pwm_factor_step_unfold)
  then show ?thesis
    using freq_valid_64000000 initial_div16_64000000 loop_entry [of 33] by simp
qed

section \<open>The two checks of the quantizer\<close>

text \<open>
  C5, as the code has it. The quantizer returns \<^verbatim>\<open>false\<close> if and only if the frequency
  lies outside \<open>[1, (float)(source_hz >> 1)]\<close> (the upper end is the integer half of the
  clock, converted to single precision) or the \<open>div16\<close> the loop ends with lies outside
  \<open>[16, 256 * 16)\<close>; it returns \<^verbatim>\<open>true\<close> with \<open>(period, div16)\<close> exactly when both
  checks pass and these are the values the loop ends with. (When the conversion of the
  quotient to \<^verbatim>\<open>uint32_t\<close> is undefined, it does neither.)
\<close>

theorem calculate_pwm_factors_outcome:
  "(calculate_pwm_factors source_hz freq = Inr None \<longleftrightarrow>
      \<not> (f32_ge freq (Fin 1) \<and> f32_le freq (f32_of_nat (source_hz div 2)))
      \<or> (\<exists>d0 div16 period. initial_div16 source_hz freq = Inr d0
            \<and> pwm_factor_loop (d0, 1) = (div16, period)
            \<and> \<not> (16 \<le> div16 \<and> div16 < 256 * 16)))
   \<and> (calculate_pwm_factors source_hz freq = Inr (Some (period_out, div16_out)) \<longleftrightarrow>
      f32_ge freq (Fin 1) \<and> f32_le freq (f32_of_nat (source_hz div 2))
      \<and> (\<exists>d0. initial_div16 source_hz freq = Inr d0
            \<and> pwm_factor_loop (d0, 1) = (div16_out, period_out)
            \<and> 16 \<le> div16_out \<and> div16_out < 256 * 16))"
proof -
  have v: "freq_valid source_hz freq \<longleftrightarrow>
      f32_ge freq (Fin 1) \<and> f32_le freq (f32_of_nat (source_hz div 2))"
    by (simp add: freq_valid_def drop_bit_eq_div)
  have m: "div16 mod 2 ^ 16 = div16" if "div16 < 256 * 16" for div16 :: nat
    using that by simp
  have "(calculate_pwm_factors source_hz freq = Inr None \<longleftrightarrow>
      \<not> freq_valid source_hz freq
      \<or> (\<exists>d0 div16 period. initial_div16 source_hz freq = Inr d0
            \<and> pwm_factor_loop (d0, 1) = (div16, period)
            \<and> \<not> (16 \<le> div16 \<and> div16 < 256 * 16)))
   \<and> (calculate_pwm_factors source_hz freq = Inr (Some (period_out, div16_out)) \<longleftrightarrow>
      freq_valid source_hz freq
      \<and> (\<exists>d0. initial_div16 source_hz freq = Inr d0
            \<and> pwm_factor_loop (d0, 1) = (div16_out, period_out)
            \<and> 16 \<le> div16_out \<and> div16_out < 256 * 16))"
  proof (cases "freq_valid source_hz freq")
    case False
    then have "calculate_pwm_factors source_hz freq = Inr None"
      by (simp add: calculate_pwm_factors_def)
    then show ?thesis using False by simp
  next
    case True
    show ?thesis
    proof (cases "initial_div16 source_hz freq")
      case (Inl e)
      then have "calculate_pwm_factors source_hz freq = Inl e"
        using True by (simp add: calculate_pwm_factors_def)
      then show ?thesis using True Inl by simp
    next
      case (Inr d0)
      obtain div16 period where l: "pwm_factor_loop (d0, 1) = (div16, period)"
        by (cases "pwm_factor_loop (d0, 1)")
      show ?thesis
      proof (cases "16 \<le> div16 \<and> div16 < 256 * 16")
        case ok: True
        then have "calculate_pwm_factors source_hz freq = Inr (Some (period, div16))"
          using True Inr l m [of div16]
          by (simp add: calculate_pwm_factors_def push_bit_eq_mult)
        then show ?thesis using True Inr l ok by auto
      next
        case bad: False
        then have "calculate_pwm_factors source_hz freq = Inr None"
          using True Inr l by (simp add: calculate_pwm_factors_def push_bit_eq_mult)
        then show ?thesis using True Inr l bad by auto
      qed
    qed
  qed
  then show ?thesis unfolding v by (simp only: conj_assoc)
qed

text \<open>125 MHz: 25 kHz gives period 5000 and divider 16; 0.5 Hz is refused.\<close>

theorem calculate_pwm_factors_outcome_witness:
  "calculate_pwm_factors 125000000 (Fin 25000) = Inr (Some (5000, 16))
   \<and> calculate_pwm_factors 125000000 (Fin (1 / 2)) = Inr None"
proof -
  have a: "f32_ge (Fin 25000) (Fin 1) \<and> f32_le (Fin 25000) (f32_of_nat (125000000 div 2))"
    using freq_valid_25000 by (simp add: freq_valid_def drop_bit_eq_div)
  have b: "\<not> f32_ge (Fin (1 / 2)) (Fin 1)" by (simp add: f32_ge_def)
  show ?thesis
    using calculate_pwm_factors_outcome [of 125000000 "Fin 25000" 5000 16]
      calculate_pwm_factors_outcome [of 125000000 "Fin (1 / 2)"]
      a b initial_div16_25000 pwm_factor_loop_80000
    by simp
qed

text \<open>
  C5 as stated fails: with a clock of 12000001 Hz the frequency 6000000.5 Hz lies in
  \<open>[1, clk / 2]\<close> and the loop would end with \<open>div16 = 16\<close>, inside
  \<open>[16, 256 * 16)\<close>, yet the quantizer returns \<^verbatim>\<open>false\<close>: it compares with
  \<open>(float)(12000001 >> 1) = 6000000\<close>. And with a clock of 125000006 Hz the frequency
  62500004 Hz lies above \<open>clk / 2\<close>, yet the quantizer returns \<^verbatim>\<open>true\<close>: it compares
  with \<open>(float)(125000006 >> 1)\<close>, and 62500003 rounds to 62500004 in single precision.
\<close>

theorem half_of_odd_clock_counterexample:
  "calculate_pwm_factors 12000001 (Fin (12000001 / 2)) = Inr None
   \<and> (1 :: real) \<le> 12000001 / 2 \<and> (12000001 / 2 :: real) \<le> real 12000001 / 2
   \<and> initial_div16 12000001 (Fin (12000001 / 2)) = Inr 32
   \<and> pwm_factor_loop (32, 1) = (16, 2)
   \<and> (16 :: nat) \<le> 16 \<and> (16 :: nat) < 256 * 16
   \<and> calculate_pwm_factors 125000006 (Fin 62500004) = Inr (Some (2, 16))
   \<and> real 125000006 / 2 < (62500004 :: real)"
proof -
  have "calculate_pwm_factors 125000006 (Fin 62500004) = Inr (Some (2, 16))"
    by (rule calculate_pwm_factors_eval
        [OF freq_valid_62500004 initial_div16_62500004 pwm_factor_loop_32]) simp_all
  then show ?thesis
    using freq_valid_6000000_5 initial_div16_6000000_5 pwm_factor_loop_32
    by (simp add: calculate_pwm_factors_def)
qed

section \<open>Changing the frequency\<close>

lemma calculate_pwm_factors_half_hz: "calculate_pwm_factors 125000000 (Fin (1 / 2)) = Inr None"
  by (simp add: calculate_pwm_factors_def freq_valid_def f32_ge_def)

lemma set_frequency_success:
  assumes "calculate_pwm_factors source_hz freq = Inr (Some (period, div16))"
    and "level_calls (m\<lparr>pwm_period := period, pwm_frequency := freq\<rparr>) = Inr levels"
  shows "set_frequency source_hz freq (m, hw) =
     Inr (True, m\<lparr>pwm_period := period, pwm_frequency := freq\<rparr>,
          hw @ clkdiv_calls (m\<lparr>pwm_period := period, pwm_frequency := freq\<rparr>) div16 @
          (if pwm_period m < period
           then levels @ wrap_calls (m\<lparr>pwm_period := period, pwm_frequency := freq\<rparr>)
           else wrap_calls (m\<lparr>pwm_period := period, pwm_frequency := freq\<rparr>) @ levels))"
  using assms by (simp add: set_frequency_def update_pwm_def Let_def)

lemma f32_round_40000: "f32_round 40000 = Fin 40000"
  using f32_round_binade [of 141 40000] by (simp add: round_half_even_def)

lemma f32_round_5000: "f32_round 5000 = Fin 5000"
  using f32_round_binade [of 138 5000] by (simp add: round_half_even_def)

lemma f32_round_2: "f32_round 2 = Fin 2"
  using f32_round_binade [of 127 2] by (simp add: round_half_even_def)

lemma f32_round_1: "f32_round 1 = Fin 1"
  using f32_round_binade [of 126 1] by (simp add: round_half_even_def)

lemma pwm_factor_loop_40000: "pwm_factor_loop (40000, 1) = (16, 2500)"
  by (simp add: pwm_factor_loop.simps pwm_factor_step_unfold)

lemma calculate_pwm_factors_25000:
  "calculate_pwm_factors 125000000 (Fin 25000) = Inr (Some (5000, 16))"
  by (rule calculate_pwm_factors_eval
      [OF freq_valid_25000 initial_div16_25000 pwm_factor_loop_80000]) simp_all

lemma calculate_pwm_factors_50000:
  "calculate_pwm_factors 125000000 (Fin 50000) = Inr (Some (2500, 16))"
proof -
  have "freq_valid 125000000 (Fin 50000)"
    by (simp add: freq_valid_def f32_ge_def f32_of_nat_def drop_bit_eq_div f32_round_62500000)
  moreover have "initial_div16 125000000 (Fin 50000) = Inr 40000"
    by (simp add: initial_div16_def f32_of_nat_def push_bit_eq_mult f32_div_def
      f32_round_2000000000 f32_round_40000 truncate_real_def)
  ultimately show ?thesis
    by (rule calculate_pwm_factors_eval [OF _ _ pwm_factor_loop_40000]) simp_all
qed

lemma slice_nums: "pwm_gpio_to_slice_num 0 = 0" "pwm_gpio_to_slice_num (Suc 0) = 0"
  "pwm_gpio_to_slice_num 2 = Suc 0"
  by (simp_all add: pwm_gpio_to_slice_num_def drop_bit_eq_div)

lemma level_calls_default:
  assumes "motor_decay_mode m \<noteq> SLOW_DECAY"
  shows "level_calls m = level_calls (m\<lparr>motor_decay_mode := FAST_DECAY\<rparr>)"
proof -
  have sd: "signed_duty_cycle (m\<lparr>motor_decay_mode := FAST_DECAY\<rparr>) = signed_duty_cycle m"
    by (simp add: signed_duty_cycle_def)
  show ?thesis
  proof (cases "signed_duty_cycle m")
    case (Inl e)
    then show ?thesis by (simp add: level_calls_def sd)
  next
    case (Inr duty)
    then show ?thesis using assms
      by (cases "motor_decay_mode m") (simp_all add: level_calls_def sd)
  qed
qed

text \<open>
  C6. When the quantizer returns \<^verbatim>\<open>false\<close> for the frequency, \<^verbatim>\<open>set_frequency\<close> (for
  its argument) and \<^verbatim>\<open>init\<close> (for the stored frequency) return \<^verbatim>\<open>false\<close>, the motor
  object is what it was, and no call is made to the peripheral.
\<close>

theorem failed_quantization_changes_nothing:
  "(calculate_pwm_factors source_hz freq = Inr None \<longrightarrow>
      set_frequency source_hz freq (m, hw) = Inr (False, m, hw))
   \<and> (calculate_pwm_factors source_hz (pwm_frequency m) = Inr None \<longrightarrow>
      init source_hz (m, hw) = Inr (False, m, hw))"
  by (simp add: set_frequency_def init_def)

text \<open>0.5 Hz at 125 MHz is refused: a running motor and a motor before \<^verbatim>\<open>init\<close>.\<close>

theorem failed_quantization_changes_nothing_witness:
  "calculate_pwm_factors 125000000 (Fin (1 / 2)) = Inr None
   \<and> set_frequency 125000000 (Fin (1 / 2))
        (\<lparr>pin_pos = 0, pin_neg = 1, pwm_cfg = pwm_get_default_config, pwm_period = 5000,
          pwm_frequency = Fin 25000, motor_decay_mode = SLOW_DECAY, motor_speed = Fin (1 / 4)\<rparr>,
         [Pwm_set_gpio_level 0 5000, Pwm_set_gpio_level 1 3750])
      = Inr (False,
         \<lparr>pin_pos = 0, pin_neg = 1, pwm_cfg = pwm_get_default_config, pwm_period = 5000,
          pwm_frequency = Fin 25000, motor_decay_mode = SLOW_DECAY, motor_speed = Fin (1 / 4)\<rparr>,
         [Pwm_set_gpio_level 0 5000, Pwm_set_gpio_level 1 3750])
   \<and> init 125000000
        (\<lparr>pin_pos = 0, pin_neg = 1, pwm_cfg = pwm_get_default_config, pwm_period = 0,
          pwm_frequency = Fin (1 / 2), motor_decay_mode = SLOW_DECAY, motor_speed = Fin 0\<rparr>, [])
      = Inr (False,
         \<lparr>pin_pos = 0, pin_neg = 1, pwm_cfg = pwm_get_default_config, pwm_period = 0,
          pwm_frequency = Fin (1 / 2), motor_decay_mode = SLOW_DECAY, motor_speed = Fin 0\<rparr>, [])"
  using failed_quantization_changes_nothing [of 125000000 "Fin (1 / 2)"
      "\<lparr>pin_pos = 0, pin_neg = 1, pwm_cfg = pwm_get_default_config, pwm_period = 5000,
          pwm_frequency = Fin 25000, motor_decay_mode = SLOW_DECAY, motor_speed = Fin (1 / 4)\<rparr>"
      "[Pwm_set_gpio_level 0 5000, Pwm_set_gpio_level 1 3750]"]
    failed_quantization_changes_nothing [of 125000000 "Fin (1 / 2)"
      "\<lparr>pin_pos = 0, pin_neg = 1, pwm_cfg = pwm_get_default_config, pwm_period = 0,
          pwm_frequency = Fin (1 / 2), motor_decay_mode = SLOW_DECAY, motor_speed = Fin 0\<rparr>" "[]"]
    calculate_pwm_factors_half_hz
  by simp

text \<open>
  C3, as the code has it. Every call of \<^verbatim>\<open>set_frequency\<close> that returns \<^verbatim>\<open>true\<close> stores the
  new period and frequency, writes the divider, and then: if the new period is larger than
  the old one, writes the two levels before the wrap; otherwise writes the wrap before the
  two levels. In both cases the levels are those of the current speed against the new
  period, which is stored before the levels are computed.
\<close>

theorem set_frequency_order:
  assumes "set_frequency source_hz freq (m, hw) = Inr (True, m', hw')"
  shows "\<exists>period div16 levels.
       calculate_pwm_factors source_hz freq = Inr (Some (period, div16))
     \<and> m' = m\<lparr>pwm_period := period, pwm_frequency := freq\<rparr>
     \<and> level_calls m' = Inr levels
     \<and> hw' = hw @ clkdiv_calls m' div16 @
          (if pwm_period m < period then levels @ wrap_calls m' else wrap_calls m' @ levels)"
proof (cases "calculate_pwm_factors source_hz freq")
  case (Inl e)
  then show ?thesis using assms by (simp add: set_frequency_def)
next
  case (Inr res)
  show ?thesis
  proof (cases res)
    case None
    then show ?thesis using assms Inr by (simp add: set_frequency_def)
  next
    case (Some pd)
    obtain period div16 where pd: "pd = (period, div16)" by (cases pd)
    have c: "calculate_pwm_factors source_hz freq = Inr (Some (period, div16))"
      using Inr Some pd by simp
    show ?thesis
    proof (cases "level_calls (m\<lparr>pwm_period := period, pwm_frequency := freq\<rparr>)")
      case (Inl e)
      then have "set_frequency source_hz freq (m, hw) = Inl e"
        using c by (simp add: set_frequency_def update_pwm_def Let_def)
      then show ?thesis using assms by simp
    next
      case (Inr levels)
      from set_frequency_success [OF c Inr, of hw] assms
      show ?thesis using c Inr by auto
    qed
  qed
qed

text \<open>
  From 25 kHz (period 5000) to 50 kHz (period 2500) at half speed, braking, on two slices:
  dividers, wraps, then levels.
\<close>

theorem set_frequency_order_witness:
  "set_frequency 125000000 (Fin 50000)
     (\<lparr>pin_pos = 0, pin_neg = 2, pwm_cfg = pwm_get_default_config, pwm_period = 5000,
       pwm_frequency = Fin 25000, motor_decay_mode = SLOW_DECAY, motor_speed = Fin (1 / 2)\<rparr>, [])
   = Inr (True,
      \<lparr>pin_pos = 0, pin_neg = 2, pwm_cfg = pwm_get_default_config, pwm_period = 2500,
       pwm_frequency = Fin 50000, motor_decay_mode = SLOW_DECAY, motor_speed = Fin (1 / 2)\<rparr>,
      [Pwm_set_clkdiv_int_frac 0 1 0, Pwm_set_clkdiv_int_frac 1 1 0,
       Pwm_set_wrap 0 2499, Pwm_set_wrap 1 2499,
       Pwm_set_gpio_level 0 2500, Pwm_set_gpio_level 2 1250])
   \<and> level_calls \<lparr>pin_pos = 0, pin_neg = 2, pwm_cfg = pwm_get_default_config,
       pwm_period = 2500, pwm_frequency = Fin 50000, motor_decay_mode = SLOW_DECAY,
       motor_speed = Fin (1 / 2)\<rparr>
     = Inr [Pwm_set_gpio_level 0 2500, Pwm_set_gpio_level 2 1250]"
proof -
  let ?m = "\<lparr>pin_pos = 0, pin_neg = 2, pwm_cfg = pwm_get_default_config, pwm_period = 5000,
       pwm_frequency = Fin 25000, motor_decay_mode = SLOW_DECAY, motor_speed = Fin (1 / 2)\<rparr>"
  let ?m' = "\<lparr>pin_pos = 0, pin_neg = 2, pwm_cfg = pwm_get_default_config, pwm_period = 2500,
       pwm_frequency = Fin 50000, motor_decay_mode = SLOW_DECAY, motor_speed = Fin (1 / 2)\<rparr>"
  have "f32_mul (Fin (1 / 2)) (f32_of_nat 2500) = Fin 1250"
    by (simp add: f32_mul_def f32_of_nat_exact f32_round_1250)
  moreover have "truncate_real 1250 = 1250" by (simp add: truncate_real_def)
  ultimately have l: "level_calls ?m' = Inr [Pwm_set_gpio_level 0 2500, Pwm_set_gpio_level 2 1250]"
    by (simp add: level_calls_def signed_duty_cycle_def to_uint16_def)
  have m': "?m\<lparr>pwm_period := 2500, pwm_frequency := Fin 50000\<rparr> = ?m'" by simp
  from set_frequency_success [OF calculate_pwm_factors_50000, of ?m, unfolded m', OF l, of "[]"]
  have s: "set_frequency 125000000 (Fin 50000) (?m, []) = Inr (True, ?m',
      [Pwm_set_clkdiv_int_frac 0 1 0, Pwm_set_clkdiv_int_frac 1 1 0,
       Pwm_set_wrap 0 2499, Pwm_set_wrap 1 2499,
       Pwm_set_gpio_level 0 2500, Pwm_set_gpio_level 2 1250])"
    by (simp add: clkdiv_calls_def wrap_calls_def slice_nums to_uint8_def to_uint16_def
        drop_bit_eq_div)
  from set_frequency_order [OF s] l show ?thesis using s by simp
qed

text \<open>
  C3 as stated fails where it says that the levels are computed against the old period:
  from period 2 to period 5000 at full speed, coasting, the levels written before the wrap
  are \<open>(5000, 0)\<close>; against the old period they would be \<open>(2, 0)\<close>.
\<close>

theorem set_frequency_new_period_counterexample:
  "set_frequency 125000000 (Fin 25000)
     (\<lparr>pin_pos = 0, pin_neg = 1, pwm_cfg = pwm_get_default_config, pwm_period = 2,
       pwm_frequency = Fin 62500000, motor_decay_mode = FAST_DECAY, motor_speed = Fin 1\<rparr>, [])
   = Inr (True,
      \<lparr>pin_pos = 0, pin_neg = 1, pwm_cfg = pwm_get_default_config, pwm_period = 5000,
       pwm_frequency = Fin 25000, motor_decay_mode = FAST_DECAY, motor_speed = Fin 1\<rparr>,
      [Pwm_set_clkdiv_int_frac 0 1 0,
       Pwm_set_gpio_level 0 5000, Pwm_set_gpio_level 1 0,
       Pwm_set_wrap 0 4999])
   \<and> level_calls \<lparr>pin_pos = 0, pin_neg = 1, pwm_cfg = pwm_get_default_config,
       pwm_period = 2, pwm_frequency = Fin 62500000, motor_decay_mode = FAST_DECAY,
       motor_speed = Fin 1\<rparr>
     = Inr [Pwm_set_gpio_level 0 2, Pwm_set_gpio_level 1 0]"
proof -
  let ?m = "\<lparr>pin_pos = 0, pin_neg = 1, pwm_cfg = pwm_get_default_config, pwm_period = 2,
       pwm_frequency = Fin 62500000, motor_decay_mode = FAST_DECAY, motor_speed = Fin 1\<rparr>"
  let ?m' = "\<lparr>pin_pos = 0, pin_neg = 1, pwm_cfg = pwm_get_default_config, pwm_period = 5000,
       pwm_frequency = Fin 25000, motor_decay_mode = FAST_DECAY, motor_speed = Fin 1\<rparr>"
  have t: "truncate_real 5000 = 5000" "truncate_real 2 = 2" by (simp_all add: truncate_real_def)
  have "f32_mul (Fin 1) (f32_of_nat 5000) = Fin 5000"
    by (simp add: f32_mul_def f32_of_nat_exact f32_round_5000)
  then have l: "level_calls ?m' = Inr [Pwm_set_gpio_level 0 5000, Pwm_set_gpio_level 1 0]"
    using t by (simp add: level_calls_def signed_duty_cycle_def to_uint16_def)
  have "f32_mul (Fin 1) (f32_of_nat 2) = Fin 2"
    by (simp add: f32_mul_def f32_of_nat_exact f32_round_2)
  then have old: "level_calls ?m = Inr [Pwm_set_gpio_level 0 2, Pwm_set_gpio_level 1 0]"
    using t by (simp add: level_calls_def signed_duty_cycle_def to_uint16_def)
  have m': "?m\<lparr>pwm_period := 5000, pwm_frequency := Fin 25000\<rparr> = ?m'" by simp
  from set_frequency_success [OF calculate_pwm_factors_25000, of ?m, unfolded m', OF l, of "[]"]
  have "set_frequency 125000000 (Fin 25000) (?m, []) = Inr (True, ?m',
      [Pwm_set_clkdiv_int_frac 0 1 0,
       Pwm_set_gpio_level 0 5000, Pwm_set_gpio_level 1 0,
       Pwm_set_wrap 0 4999])"
    by (simp add: clkdiv_calls_def wrap_calls_def slice_nums to_uint8_def to_uint16_def
        drop_bit_eq_div)
  then show ?thesis using old by simp
qed

section \<open>The decay mode\<close>

text \<open>
  C10, as the code has it. The constructor stores the decay mode it is given, whatever it
  is, and the level update treats every mode other than \<open>SLOW_DECAY\<close> as
  \<open>FAST_DECAY\<close>: \<open>FAST_DECAY\<close> shares its branch with the \<^verbatim>\<open>default\<close> label.
\<close>

theorem decay_mode_default_branch:
  "motor_decay_mode (Motor_ctor uninit pos neg freq mode) = mode
   \<and> (motor_decay_mode m \<noteq> SLOW_DECAY \<longrightarrow>
        update_pwm m hw = update_pwm (m\<lparr>motor_decay_mode := FAST_DECAY\<rparr>) hw)"
proof -
  have "update_pwm m hw = update_pwm (m\<lparr>motor_decay_mode := FAST_DECAY\<rparr>) hw"
    if "motor_decay_mode m \<noteq> SLOW_DECAY"
    using level_calls_default [OF that] by (simp add: update_pwm_def)
  then show ?thesis by (simp add: Motor_ctor_def)
qed

text \<open>A mode that is neither enumerator, at speed 0: the levels are those of \<open>FAST_DECAY\<close>.\<close>

theorem decay_mode_default_branch_witness:
  "Other_decay 2 \<noteq> SLOW_DECAY
   \<and> update_pwm \<lparr>pin_pos = 0, pin_neg = 1, pwm_cfg = pwm_get_default_config, pwm_period = 5000,
       pwm_frequency = Fin 25000, motor_decay_mode = Other_decay 2, motor_speed = Fin 0\<rparr> []
     = update_pwm \<lparr>pin_pos = 0, pin_neg = 1, pwm_cfg = pwm_get_default_config,
       pwm_period = 5000, pwm_frequency = Fin 25000, motor_decay_mode = FAST_DECAY,
       motor_speed = Fin 0\<rparr> []"
  using decay_mode_default_branch [of _ _ _ _ _ "\<lparr>pin_pos = 0, pin_neg = 1,
       pwm_cfg = pwm_get_default_config, pwm_period = 5000, pwm_frequency = Fin 25000,
       motor_decay_mode = Other_decay 2, motor_speed = Fin 0\<rparr>" "[]"]
  by simp

text \<open>
  C10 as stated fails: a motor constructed with a mode that is neither enumerator is
  accepted, \<^verbatim>\<open>init\<close> succeeds, and the level update writes the coasting levels
  \<open>(0, 0)\<close>.
\<close>

theorem invalid_decay_mode_accepted_counterexample:
  "Motor_ctor \<lparr>pin_pos = 0, pin_neg = 0, pwm_cfg = pwm_get_default_config, pwm_period = 0,
       pwm_frequency = Fin 0, motor_decay_mode = SLOW_DECAY, motor_speed = Fin 0\<rparr>
     0 1 (Fin 25000) (Other_decay 2)
   = \<lparr>pin_pos = 0, pin_neg = 1, pwm_cfg = pwm_get_default_config, pwm_period = 0,
       pwm_frequency = Fin 25000, motor_decay_mode = Other_decay 2, motor_speed = Fin 0\<rparr>
   \<and> init 125000000
       (\<lparr>pin_pos = 0, pin_neg = 1, pwm_cfg = pwm_get_default_config, pwm_period = 0,
         pwm_frequency = Fin 25000, motor_decay_mode = Other_decay 2, motor_speed = Fin 0\<rparr>, [])
   = Inr (True,
       \<lparr>pin_pos = 0, pin_neg = 1, pwm_cfg = \<lparr>cfg_wrap = 4999, cfg_clkdiv = Fin 1\<rparr>,
         pwm_period = 5000, pwm_frequency = Fin 25000, motor_decay_mode = Other_decay 2,
         motor_speed = Fin 0\<rparr>,
       [Pwm_init 0 \<lparr>cfg_wrap = 4999, cfg_clkdiv = Fin 1\<rparr> True,
        Gpio_set_function 0 GPIO_FUNC_PWM,
        Pwm_init 0 \<lparr>cfg_wrap = 4999, cfg_clkdiv = Fin 1\<rparr> True,
        Gpio_set_function 1 GPIO_FUNC_PWM,
        Pwm_set_gpio_level 0 0, Pwm_set_gpio_level 1 0])"
proof -
  have "f32_mul (Fin 0) (f32_of_nat 5000) = Fin 0"
    by (simp add: f32_mul_def f32_of_nat_exact f32_round_0)
  moreover have "truncate_real 0 = 0" by (simp add: truncate_real_def)
  moreover have "f32_div (f32_of_nat 16) (Fin 16) = Fin 1"
    by (simp add: f32_div_def f32_of_nat_exact f32_round_1)
  ultimately show ?thesis
    by (simp add: Motor_ctor_def init_def calculate_pwm_factors_25000 update_pwm_def
        level_calls_def signed_duty_cycle_def to_uint16_def slice_nums
        pwm_get_default_config_def Let_def)
qed

end
